theory Spec2Isabelle
  imports Complex_Main
begin

section \<open>Tensor values\<close>

text \<open>
  The architect works on torch tensors of floating-point numbers. A tensor entry is an
  exact real, or one of the three special values of IEEE arithmetic. The special values
  follow the IEEE rules that torch applies (division by zero does not raise, it yields an
  infinity or NaN; NaN propagates). Rounding, overflow of finite values and the sign of
  zero are not part of the model: finite arithmetic is exact, and zero counts as +0.
\<close>

datatype fl = Fin real | PInf | NInf | NaN

fun is_fin :: "fl \<Rightarrow> bool" where
  "is_fin (Fin x) = True"
| "is_fin PInf = False"
| "is_fin NInf = False"
| "is_fin NaN = False"

fun fneg :: "fl \<Rightarrow> fl" where
  "fneg (Fin x) = Fin (- x)"
| "fneg PInf = NInf"
| "fneg NInf = PInf"
| "fneg NaN = NaN"

fun fadd :: "fl \<Rightarrow> fl \<Rightarrow> fl" where
  "fadd (Fin x) (Fin y) = Fin (x + y)"
| "fadd (Fin x) PInf = PInf"
| "fadd (Fin x) NInf = NInf"
| "fadd (Fin x) NaN = NaN"
| "fadd PInf (Fin y) = PInf"
| "fadd PInf PInf = PInf"
| "fadd PInf NInf = NaN"
| "fadd PInf NaN = NaN"
| "fadd NInf (Fin y) = NInf"
| "fadd NInf PInf = NaN"
| "fadd NInf NInf = NInf"
| "fadd NInf NaN = NaN"
| "fadd NaN y = NaN"

definition fsub :: "fl \<Rightarrow> fl \<Rightarrow> fl" where
  "fsub x y = fadd x (fneg y)"

text \<open>The infinity with the sign of \<open>x\<close>; \<open>inf * 0\<close> is NaN.\<close>

definition inf_signed :: "real \<Rightarrow> fl" where
  "inf_signed x = (if x = 0 then NaN else if 0 < x then PInf else NInf)"

fun fmul :: "fl \<Rightarrow> fl \<Rightarrow> fl" where
  "fmul (Fin x) (Fin y) = Fin (x * y)"
| "fmul (Fin x) PInf = inf_signed x"
| "fmul (Fin x) NInf = inf_signed (- x)"
| "fmul (Fin x) NaN = NaN"
| "fmul PInf (Fin y) = inf_signed y"
| "fmul PInf PInf = PInf"
| "fmul PInf NInf = NInf"
| "fmul PInf NaN = NaN"
| "fmul NInf (Fin y) = inf_signed (- y)"
| "fmul NInf PInf = NInf"
| "fmul NInf NInf = PInf"
| "fmul NInf NaN = NaN"
| "fmul NaN y = NaN"

fun fdiv :: "fl \<Rightarrow> fl \<Rightarrow> fl" where
  "fdiv (Fin x) (Fin y) = (if y = 0 then inf_signed x else Fin (x / y))"
| "fdiv (Fin x) PInf = Fin 0"
| "fdiv (Fin x) NInf = Fin 0"
| "fdiv (Fin x) NaN = NaN"
| "fdiv PInf (Fin y) = (if 0 \<le> y then PInf else NInf)"
| "fdiv PInf PInf = NaN"
| "fdiv PInf NInf = NaN"
| "fdiv PInf NaN = NaN"
| "fdiv NInf (Fin y) = (if 0 \<le> y then NInf else PInf)"
| "fdiv NInf PInf = NaN"
| "fdiv NInf NInf = NaN"
| "fdiv NInf NaN = NaN"
| "fdiv NaN y = NaN"

fun fsqrt :: "fl \<Rightarrow> fl" where
  "fsqrt (Fin x) = (if 0 \<le> x then Fin (sqrt x) else NaN)"
| "fsqrt PInf = PInf"
| "fsqrt NInf = NaN"
| "fsqrt NaN = NaN"

fun fexp :: "fl \<Rightarrow> fl" where
  "fexp (Fin x) = Fin (exp x)"
| "fexp PInf = PInf"
| "fexp NInf = Fin 0"
| "fexp NaN = NaN"

fun flog :: "fl \<Rightarrow> fl" where
  "flog (Fin x) = (if 0 < x then Fin (ln x) else if x = 0 then NInf else NaN)"
| "flog PInf = PInf"
| "flog NInf = NaN"
| "flog NaN = NaN"

text \<open>
  A tensor is the list of its entries (\<open>view(-1)\<close>); its shape is its length. An
  elementwise operation on two tensors of different sizes is torch's RuntimeError
  (broadcasting between tensors of different sizes is not modelled).
\<close>

type_synonym tensor = "fl list"

datatype error = RuntimeError | TypeError | AttributeError | IndexError | LossError

definition tadd :: "tensor \<Rightarrow> tensor \<Rightarrow> error + tensor" where
  "tadd s t = (if length s = length t then Inr (map2 fadd s t) else Inl RuntimeError)"

definition tsub :: "tensor \<Rightarrow> tensor \<Rightarrow> error + tensor" where
  "tsub s t = (if length s = length t then Inr (map2 fsub s t) else Inl RuntimeError)"

text \<open>\<open>c * t\<close>, \<open>t * c\<close>, \<open>t / c\<close> and \<open>c + t\<close> for a scalar \<open>c\<close>.\<close>

definition smul :: "fl \<Rightarrow> tensor \<Rightarrow> tensor" where
  "smul c t = map (fmul c) t"

definition tmuls :: "tensor \<Rightarrow> fl \<Rightarrow> tensor" where
  "tmuls t c = map (\<lambda>x. fmul x c) t"

definition tdivs :: "tensor \<Rightarrow> fl \<Rightarrow> tensor" where
  "tdivs t c = map (\<lambda>x. fdiv x c) t"

definition sadd :: "fl \<Rightarrow> tensor \<Rightarrow> tensor" where
  "sadd c t = map (fadd c) t"

text \<open>\<open>torch.cat\<close> of one-dimensional views: an empty list of tensors is a RuntimeError.\<close>

definition torch_cat :: "tensor list \<Rightarrow> error + tensor" where
  "torch_cat ts = (if ts = [] then Inl RuntimeError else Inr (concat ts))"

text \<open>\<open>torch.sum\<close>, and \<open>t.norm()\<close>: the square root of the sum of the squares.\<close>

definition fsum :: "tensor \<Rightarrow> fl" where
  "fsum t = foldl fadd (Fin 0) t"

definition tnorm :: "tensor \<Rightarrow> fl" where
  "tnorm t = fsqrt (fsum (map (\<lambda>x. fmul x x) t))"

section \<open>Memory and the model's capabilities\<close>

text \<open>
  Parameters are objects that are mutated in place (\<open>p += ...\<close>, \<open>vw.copy_(...)\<close>), and
  the optimizer state is keyed by the identity of a parameter, so a parameter is an
  address and the tensors live in a store.
\<close>

type_synonym addr = nat
type_synonym store = "addr \<Rightarrow> tensor"
type_synonym gradients = "addr \<Rightarrow> tensor option"

text \<open>
  \<open>w_optim.state\<close> is torch's \<open>defaultdict(dict)\<close>, read here only at the key
  \<open>'momentum_buffer'\<close>: no entry for a parameter (\<open>None\<close>), an entry without a buffer
  (\<open>Some None\<close>), or an entry with its buffer.
\<close>

type_synonym optim_state = "addr \<Rightarrow> tensor option option"

record state =
  store :: store
  grad :: gradients
  w_state :: optim_state

text \<open>
  A network: the parameters that \<open>weights()\<close>, \<open>weights(check_grad=True)\<close> and
  \<open>alphas()\<close> yield, in order. The model class is not part of the sources; which weights
  \<open>check_grad\<close> keeps is a parameter.
\<close>

record network =
  weights :: "addr list"
  weights_check_grad :: "addr list"
  alphas :: "addr list"

text \<open>
  The loss and its backward pass belong to the model and to torch, and the architecture
  optimizer to the caller. They are parameters of the development. Evaluating a loss at
  the current store either raises, or gives for every parameter its gradient, \<open>None\<close>
  for a parameter that the loss did not use: \<open>trn_backward\<close> for
  \<open>net.loss(trn_X, trn_y)\<close>, \<open>val_backward\<close> for \<open>net.loss(val_X, val_y)\<close> and
  \<open>v_val_backward\<close> for \<open>v_net.loss(val_X, val_y)\<close>. The architecture optimizer
  \<open>a_optim\<close> owns the parameters \<open>a_params\<close>; \<open>zero_grad\<close> resets their gradient
  fields with \<open>a_zero\<close> and \<open>step\<close> rewrites each one that has a gradient with
  \<open>a_rule\<close>. Whether a parameter requires grad is set where the model creates it:
  \<open>requires_grad\<close>.
\<close>

record env =
  trn_backward :: "store \<Rightarrow> error + gradients"
  val_backward :: "store \<Rightarrow> error + gradients"
  v_val_backward :: "store \<Rightarrow> error + gradients"
  a_params :: "addr list"
  a_zero :: "tensor option \<Rightarrow> tensor option"
  a_rule :: "tensor \<Rightarrow> tensor \<Rightarrow> tensor"
  requires_grad :: "addr \<Rightarrow> bool"

text \<open>
  \<open>torch.autograd.grad(loss, inputs, allow_unused=...)\<close>: without \<open>allow_unused\<close> an
  input that the loss did not use is a RuntimeError.
\<close>

definition autograd_grad ::
  "bool \<Rightarrow> error + gradients \<Rightarrow> addr list \<Rightarrow> error + tensor option list" where
  "autograd_grad allow_unused loss inputs =
     (case loss of
        Inl e \<Rightarrow> Inl e
      | Inr g \<Rightarrow>
          if \<not> allow_unused \<and> list_ex (\<lambda>a. g a = None) inputs then Inl RuntimeError
          else Inr (map g inputs))"

text \<open>\<open>a_optim.zero_grad()\<close> and \<open>a_optim.step()\<close>.\<close>

definition zero_grad :: "env \<Rightarrow> state \<Rightarrow> state" where
  "zero_grad E s = s\<lparr>grad := fold (\<lambda>p g. g(p := a_zero E (g p))) (a_params E) (grad s)\<rparr>"

definition optim_step :: "env \<Rightarrow> state \<Rightarrow> state" where
  "optim_step E s =
     s\<lparr>store := fold (\<lambda>p h. case grad s p of None \<Rightarrow> h | Some g \<Rightarrow> h(p := a_rule E (h p) g))
                  (a_params E) (store s)\<rparr>"

text \<open>\<open>dst.copy_(src)\<close> writes the value into the destination, which keeps its shape.\<close>

definition copy_into :: "addr \<Rightarrow> tensor \<Rightarrow> store \<Rightarrow> error + store" where
  "copy_into dst src h = (if length (h dst) = length src then Inr (h(dst := src)) else Inl RuntimeError)"

text \<open>
  \<open>copy.deepcopy(net)\<close>: every tensor object gets a fresh copy, and two references to
  one object stay references to one copy. The copy of the object at \<open>a\<close> is placed at
  \<open>a + off\<close>, where \<open>off\<close> is beyond every address in use.
\<close>

definition deepcopy_network :: "nat \<Rightarrow> network \<Rightarrow> network" where
  "deepcopy_network off n =
     \<lparr>weights = map (\<lambda>a. a + off) (weights n),
      weights_check_grad = map (\<lambda>a. a + off) (weights_check_grad n),
      alphas = map (\<lambda>a. a + off) (alphas n)\<rparr>"

definition deepcopy_store :: "nat \<Rightarrow> store \<Rightarrow> store" where
  "deepcopy_store off h = (\<lambda>a. if off \<le> a then h (a - off) else h a)"

section \<open>The virtual step\<close>

record architect =
  net :: network
  v_net :: network
  w_momentum :: fl
  w_weight_decay :: fl

text \<open>A Python value that is a tensor or a plain number.\<close>

datatype pyval = Tensor tensor | Scalar fl

text \<open>\<open>w_optim.state[w]\<close>: reading a missing key of a \<open>defaultdict\<close> inserts an empty entry.\<close>

definition state_entry :: "optim_state \<Rightarrow> addr \<Rightarrow> optim_state" where
  "state_entry os w = (case os w of None \<Rightarrow> os(w := Some None) | Some d \<Rightarrow> os)"

text \<open>The momentum buffer of a parameter, if its entry has one.\<close>

definition momentum_buffer :: "optim_state \<Rightarrow> addr \<Rightarrow> tensor option" where
  "momentum_buffer os w = (case os w of Some (Some buf) \<Rightarrow> Some buf | _ \<Rightarrow> None)"

text \<open>\<open>.get('momentum_buffer', 0.) * self.w_momentum\<close>\<close>

definition momentum_term :: "optim_state \<Rightarrow> addr \<Rightarrow> fl \<Rightarrow> pyval" where
  "momentum_term os w mu =
     (case momentum_buffer os w of
        Some buf \<Rightarrow> Tensor (tmuls buf mu)
      | None \<Rightarrow> Scalar (fmul (Fin 0) mu))"

text \<open>\<open>w - xi * (m + g + self.w_weight_decay*w)\<close>\<close>

definition virtual_weight :: "fl \<Rightarrow> fl \<Rightarrow> pyval \<Rightarrow> tensor \<Rightarrow> tensor option \<Rightarrow> error + tensor" where
  "virtual_weight xi wd m w g =
     (case g of
        None \<Rightarrow> Inl TypeError
      | Some gt \<Rightarrow>
          (case (case m of Tensor mt \<Rightarrow> tadd mt gt | Scalar c \<Rightarrow> Inr (sadd c gt)) of
             Inl e \<Rightarrow> Inl e
           | Inr mg \<Rightarrow>
               (case tadd mg (smul wd w) of
                  Inl e \<Rightarrow> Inl e
                | Inr t \<Rightarrow> tsub w (smul xi t))))"

text \<open>
  \<open>for w, vw, g in zip(...): m = ...; vw.copy_(...)\<close>. The loop stops at the first
  error and keeps what it has written.
\<close>

fun virtual_update ::
  "fl \<Rightarrow> fl \<Rightarrow> fl \<Rightarrow> (addr \<times> addr \<times> tensor option) list \<Rightarrow> state \<Rightarrow> (error + unit) \<times> state" where
  "virtual_update xi mu wd [] s = (Inr (), s)"
| "virtual_update xi mu wd ((w, vw, g) # ws) s =
     (let os = state_entry (w_state s) w;
          s1 = s\<lparr>w_state := os\<rparr>
      in case virtual_weight xi wd (momentum_term os w mu) (store s1 w) g of
           Inl e \<Rightarrow> (Inl e, s1)
         | Inr t \<Rightarrow>
             (case copy_into vw t (store s1) of
                Inl e \<Rightarrow> (Inl e, s1)
              | Inr h \<Rightarrow> virtual_update xi mu wd ws (s1\<lparr>store := h\<rparr>)))"

text \<open>\<open>for a, va in zip(self.net.alphas(), self.v_net.alphas()): va.copy_(a)\<close>\<close>

fun sync_alphas :: "(addr \<times> addr) list \<Rightarrow> store \<Rightarrow> (error + unit) \<times> store" where
  "sync_alphas [] h = (Inr (), h)"
| "sync_alphas ((a, va) # as) h =
     (case copy_into va (h a) h of
        Inl e \<Rightarrow> (Inl e, h)
      | Inr h1 \<Rightarrow> sync_alphas as h1)"

definition darts_virtual_step :: "env \<Rightarrow> architect \<Rightarrow> fl \<Rightarrow> state \<Rightarrow> (error + unit) \<times> state" where
  "darts_virtual_step E A xi s =
     (case autograd_grad False (trn_backward E (store s)) (weights (net A)) of
        Inl e \<Rightarrow> (Inl e, s)
      | Inr gradients \<Rightarrow>
          (case virtual_update xi (w_momentum A) (w_weight_decay A)
                  (zip (weights (net A)) (zip (weights (v_net A)) gradients)) s of
             (Inl e, s1) \<Rightarrow> (Inl e, s1)
           | (Inr _, s1) \<Rightarrow>
               (case sync_alphas (zip (alphas (net A)) (alphas (v_net A))) (store s1) of
                  (r, h) \<Rightarrow> (r, s1\<lparr>store := h\<rparr>))))"

section \<open>The finite-difference estimator\<close>

text \<open>\<open>[w.view(-1) for w in dw]\<close>: \<open>None\<close> has no \<open>view\<close>.\<close>

fun views :: "tensor option list \<Rightarrow> error + tensor list" where
  "views [] = Inr []"
| "views (None # ds) = Inl AttributeError"
| "views (Some d # ds) = (case views ds of Inl e \<Rightarrow> Inl e | Inr ts \<Rightarrow> Inr (d # ts))"

definition darts_norm :: "tensor option list \<Rightarrow> error + fl" where
  "darts_norm dw =
     (case views dw of
        Inl e \<Rightarrow> Inl e
      | Inr ts \<Rightarrow> (case torch_cat ts of Inl e \<Rightarrow> Inl e | Inr t \<Rightarrow> Inr (tnorm t)))"

text \<open>
  \<open>for p, d in zip(weights, dw): p += c * d\<close> (with \<open>tadd\<close>) and \<open>p -= c * d\<close> (with
  \<open>tsub\<close>). The loop stops at the first error and keeps what it has written.
\<close>

fun darts_perturb ::
  "(tensor \<Rightarrow> tensor \<Rightarrow> error + tensor) \<Rightarrow> fl \<Rightarrow> (addr \<times> tensor option) list \<Rightarrow> store
     \<Rightarrow> (error + unit) \<times> store" where
  "darts_perturb op c [] h = (Inr (), h)"
| "darts_perturb op c ((p, None) # ps) h = (Inl TypeError, h)"
| "darts_perturb op c ((p, Some d) # ps) h =
     (case op (h p) (smul c d) of
        Inl e \<Rightarrow> (Inl e, h)
      | Inr t \<Rightarrow> darts_perturb op c ps (h(p := t)))"

text \<open>\<open>[(p-n) / 2.*eps for p, n in zip(dalpha_pos, dalpha_neg)]\<close>\<close>

fun darts_hessian :: "fl \<Rightarrow> (tensor option \<times> tensor option) list \<Rightarrow> error + pyval list" where
  "darts_hessian eps [] = Inr []"
| "darts_hessian eps ((Some p, Some n) # pns) =
     (case tsub p n of
        Inl e \<Rightarrow> Inl e
      | Inr t \<Rightarrow>
          (case darts_hessian eps pns of
             Inl e \<Rightarrow> Inl e
           | Inr hs \<Rightarrow> Inr (Tensor (tmuls (tdivs t (Fin 2)) eps) # hs)))"
| "darts_hessian eps (pn # pns) = Inl TypeError"

definition darts_compute_hessian ::
  "env \<Rightarrow> architect \<Rightarrow> tensor option list \<Rightarrow> store \<Rightarrow> (error + pyval list) \<times> store" where
  "darts_compute_hessian E A dw h =
     (case darts_norm dw of
        Inl e \<Rightarrow> (Inl e, h)
      | Inr nrm \<Rightarrow>
          let eps = fdiv (Fin (1 / 100)) nrm;
              ps = zip (weights (net A)) dw
          in
          (case darts_perturb tadd eps ps h of
             (Inl e, h1) \<Rightarrow> (Inl e, h1)
           | (Inr _, h1) \<Rightarrow>
          (case autograd_grad False (trn_backward E h1) (alphas (net A)) of
             Inl e \<Rightarrow> (Inl e, h1)
           | Inr dalpha_pos \<Rightarrow>
          (case darts_perturb tsub (fmul (Fin 2) eps) ps h1 of
             (Inl e, h2) \<Rightarrow> (Inl e, h2)
           | (Inr _, h2) \<Rightarrow>
          (case autograd_grad False (trn_backward E h2) (alphas (net A)) of
             Inl e \<Rightarrow> (Inl e, h2)
           | Inr dalpha_neg \<Rightarrow>
          (case darts_perturb tadd eps ps h2 of
             (Inl e, h3) \<Rightarrow> (Inl e, h3)
           | (Inr _, h3) \<Rightarrow> (darts_hessian eps (zip dalpha_pos dalpha_neg), h3)))))))"

section \<open>DARTSArchitect.step\<close>

text \<open>\<open>da - xi*h\<close>\<close>

definition final_grad :: "fl \<Rightarrow> tensor option \<Rightarrow> pyval \<Rightarrow> error + tensor" where
  "final_grad xi da h =
     (case da of
        None \<Rightarrow> Inl TypeError
      | Some d \<Rightarrow>
          (case h of
             Tensor t \<Rightarrow> tsub d (smul xi t)
           | Scalar c \<Rightarrow> Inr (map (\<lambda>x. fsub x (fmul xi c)) d)))"

text \<open>
  \<open>for alpha, da, h in zip(self.net.alphas(), dalpha, hessian): alpha.grad = da - xi*h\<close>.
  Torch refuses a gradient whose size is not the parameter's.
\<close>

fun assign_grads :: "fl \<Rightarrow> (addr \<times> tensor option \<times> pyval) list \<Rightarrow> state \<Rightarrow> (error + unit) \<times> state" where
  "assign_grads xi [] s = (Inr (), s)"
| "assign_grads xi ((alpha, da, h) # rest) s =
     (case final_grad xi da h of
        Inl e \<Rightarrow> (Inl e, s)
      | Inr g \<Rightarrow>
          if length g = length (store s alpha)
          then assign_grads xi rest (s\<lparr>grad := (grad s)(alpha := Some g)\<rparr>)
          else (Inl RuntimeError, s))"

definition darts_step :: "env \<Rightarrow> architect \<Rightarrow> fl \<Rightarrow> state \<Rightarrow> (error + unit) \<times> state" where
  "darts_step E A xi s =
     (case darts_virtual_step E A xi (zero_grad E s) of
        (Inl e, s1) \<Rightarrow> (Inl e, s1)
      | (Inr _, s1) \<Rightarrow>
          let v_alphas = alphas (v_net A);
              v_weights = weights (v_net A)
          in
          (case autograd_grad False (v_val_backward E (store s1)) (v_alphas @ v_weights) of
             Inl e \<Rightarrow> (Inl e, s1)
           | Inr v_grads \<Rightarrow>
               let dalpha = take (length v_alphas) v_grads;
                   dw = drop (length v_alphas) v_grads
               in
               (case darts_compute_hessian E A dw (store s1) of
                  (Inl e, h) \<Rightarrow> (Inl e, s1\<lparr>store := h\<rparr>)
                | (Inr hessian, h) \<Rightarrow>
                    (case assign_grads xi (zip (alphas (net A)) (zip dalpha hessian))
                            (s1\<lparr>store := h\<rparr>) of
                       (Inl e, s2) \<Rightarrow> (Inl e, s2)
                     | (Inr _, s2) \<Rightarrow> (Inr (), optim_step E s2)))))"

text \<open>\<open>__init__\<close>: \<open>self.v_net = copy.deepcopy(net)\<close>\<close>

definition darts_init :: "network \<Rightarrow> fl \<Rightarrow> fl \<Rightarrow> nat \<Rightarrow> state \<Rightarrow> architect \<times> state" where
  "darts_init n mu wd off s =
     (\<lparr>net = n, v_net = deepcopy_network off n, w_momentum = mu, w_weight_decay = wd\<rparr>,
      s\<lparr>store := deepcopy_store off (store s)\<rparr>)"

section \<open>BinaryGateArchitect\<close>

record gate = architect +
  n_samples :: nat
  unrolled :: bool
  renorm :: bool

text \<open>
  \<open>__init__\<close>: the virtual network exists only when \<open>unrolled\<close> is set.

  Modelled from the spec: the class \<open>NASModule\<close> that holds the architecture parameters
  is not part of the sources. The gated variant uses the same alpha tensors for the real
  and the virtual model, with no virtual alpha copy: the alphas are shared by reference.
\<close>

definition bg_init ::
  "network \<Rightarrow> fl \<Rightarrow> fl \<Rightarrow> nat \<Rightarrow> bool \<Rightarrow> bool \<Rightarrow> nat \<Rightarrow> state \<Rightarrow> gate \<times> state" where
  "bg_init n mu wd ns unr ren off s =
     (if unr
      then (\<lparr>net = n, v_net = (deepcopy_network off n)\<lparr>alphas := alphas n\<rparr>,
             w_momentum = mu, w_weight_decay = wd,
             n_samples = ns, unrolled = unr, renorm = ren\<rparr>,
            s\<lparr>store := deepcopy_store off (store s)\<rparr>)
      else (\<lparr>net = n, v_net = \<lparr>weights = [], weights_check_grad = [], alphas = []\<rparr>,
             w_momentum = mu, w_weight_decay = wd,
             n_samples = ns, unrolled = unr, renorm = ren\<rparr>, s))"

text \<open>Reading \<open>self.v_net\<close> when it was never set is an AttributeError.\<close>

definition bg_virtual_step :: "env \<Rightarrow> gate \<Rightarrow> fl \<Rightarrow> state \<Rightarrow> (error + unit) \<times> state" where
  "bg_virtual_step E G xi s =
     (case autograd_grad False (trn_backward E (store s)) (weights_check_grad (net G)) of
        Inl e \<Rightarrow> (Inl e, s)
      | Inr gradients \<Rightarrow>
          if \<not> unrolled G then (Inl AttributeError, s)
          else virtual_update xi (w_momentum G) (w_weight_decay G)
                 (zip (weights_check_grad (net G)) (zip (weights_check_grad (v_net G)) gradients)) s)"

text \<open>\<open>[w.view(-1) for w in dw if not w is None]\<close>\<close>

fun defined_views :: "tensor option list \<Rightarrow> tensor list" where
  "defined_views [] = []"
| "defined_views (None # ds) = defined_views ds"
| "defined_views (Some d # ds) = d # defined_views ds"

definition bg_norm :: "tensor option list \<Rightarrow> error + fl" where
  "bg_norm dw = (case torch_cat (defined_views dw) of Inl e \<Rightarrow> Inl e | Inr t \<Rightarrow> Inr (tnorm t))"

text \<open>
  \<open>for p, d in zip(weights, dw): if not p is None and not d is None: p += c * d\<close>
  (with \<open>tadd\<close>) and \<open>p -= c * d\<close> (with \<open>tsub\<close>). A parameter is never \<open>None\<close>.
\<close>

fun bg_perturb ::
  "(tensor \<Rightarrow> tensor \<Rightarrow> error + tensor) \<Rightarrow> fl \<Rightarrow> (addr \<times> tensor option) list \<Rightarrow> store
     \<Rightarrow> (error + unit) \<times> store" where
  "bg_perturb op c [] h = (Inr (), h)"
| "bg_perturb op c ((p, None) # ps) h = bg_perturb op c ps h"
| "bg_perturb op c ((p, Some d) # ps) h =
     (case op (h p) (smul c d) of
        Inl e \<Rightarrow> (Inl e, h)
      | Inr t \<Rightarrow> bg_perturb op c ps (h(p := t)))"

text \<open>\<open>[((p-n) / 2.*eps if not p is None else 0) for p, n in zip(dalpha_pos, dalpha_neg)]\<close>\<close>

fun bg_hessian :: "fl \<Rightarrow> (tensor option \<times> tensor option) list \<Rightarrow> error + pyval list" where
  "bg_hessian eps [] = Inr []"
| "bg_hessian eps ((None, n) # pns) =
     (case bg_hessian eps pns of Inl e \<Rightarrow> Inl e | Inr hs \<Rightarrow> Inr (Scalar (Fin 0) # hs))"
| "bg_hessian eps ((Some p, None) # pns) = Inl TypeError"
| "bg_hessian eps ((Some p, Some n) # pns) =
     (case tsub p n of
        Inl e \<Rightarrow> Inl e
      | Inr t \<Rightarrow>
          (case bg_hessian eps pns of
             Inl e \<Rightarrow> Inl e
           | Inr hs \<Rightarrow> Inr (Tensor (tmuls (tdivs t (Fin 2)) eps) # hs)))"

definition bg_compute_hessian ::
  "env \<Rightarrow> gate \<Rightarrow> tensor option list \<Rightarrow> store \<Rightarrow> (error + pyval list) \<times> store" where
  "bg_compute_hessian E G dw h =
     (case bg_norm dw of
        Inl e \<Rightarrow> (Inl e, h)
      | Inr nrm \<Rightarrow>
          let eps = fdiv (Fin (1 / 100)) nrm;
              ps = zip (weights_check_grad (net G)) dw
          in
          (case bg_perturb tadd eps ps h of
             (Inl e, h1) \<Rightarrow> (Inl e, h1)
           | (Inr _, h1) \<Rightarrow>
          (case autograd_grad True (trn_backward E h1) (alphas (net G)) of
             Inl e \<Rightarrow> (Inl e, h1)
           | Inr dalpha_pos \<Rightarrow>
          (case bg_perturb tsub (fmul (Fin 2) eps) ps h1 of
             (Inl e, h2) \<Rightarrow> (Inl e, h2)
           | (Inr _, h2) \<Rightarrow>
          (case autograd_grad True (trn_backward E h2) (alphas (net G)) of
             Inl e \<Rightarrow> (Inl e, h2)
           | Inr dalpha_neg \<Rightarrow>
          (case bg_perturb tadd eps ps h2 of
             (Inl e, h3) \<Rightarrow> (Inl e, h3)
           | (Inr _, h3) \<Rightarrow> (bg_hessian eps (zip dalpha_pos dalpha_neg), h3)))))))"

section \<open>BinaryGateArchitect.step\<close>

text \<open>
  The first-order branch: \<open>loss = self.net.loss(val_X, val_y); self.net.alpha_backward(loss)\<close>.

  Modelled from the spec: \<open>alpha_backward\<close> is not part of the sources. It performs a
  backward pass populating only alpha-parameter gradients: the gradient field of every
  alpha that the loss used receives its gradient.
\<close>

definition alpha_backward :: "gradients \<Rightarrow> addr list \<Rightarrow> state \<Rightarrow> state" where
  "alpha_backward g as s =
     s\<lparr>grad := fold (\<lambda>a gr. case g a of None \<Rightarrow> gr | Some t \<Rightarrow> gr(a := Some t)) as (grad s)\<rparr>"

definition bg_first_order :: "env \<Rightarrow> gate \<Rightarrow> state \<Rightarrow> (error + unit) \<times> state" where
  "bg_first_order E G s =
     (case val_backward E (store s) of
        Inl e \<Rightarrow> (Inl e, s)
      | Inr g \<Rightarrow> (Inr (), alpha_backward g (alphas (net G)) s))"

text \<open>
  The unrolled branch.

  Modelled from the spec: \<open>alpha_grad\<close> is not part of the sources. It returns a sequence
  of possibly undefined gradients, one per alpha group, tolerant of unreachable
  parameters.
\<close>

definition alpha_grad :: "error + gradients \<Rightarrow> addr list \<Rightarrow> error + tensor option list" where
  "alpha_grad loss as = autograd_grad True loss as"

definition bg_unrolled :: "env \<Rightarrow> gate \<Rightarrow> fl \<Rightarrow> state \<Rightarrow> (error + unit) \<times> state" where
  "bg_unrolled E G xi s =
     (case bg_virtual_step E G xi s of
        (Inl e, s1) \<Rightarrow> (Inl e, s1)
      | (Inr _, s1) \<Rightarrow>
          let loss = v_val_backward E (store s1);
              v_weights = weights (v_net G)
          in
          (case autograd_grad False loss v_weights of
             Inl e \<Rightarrow> (Inl e, s1)
           | Inr dw \<Rightarrow>
               (case alpha_grad loss (alphas (net G)) of
                  Inl e \<Rightarrow> (Inl e, s1)
                | Inr dalpha \<Rightarrow>
                    (case bg_compute_hessian E G dw (store s1) of
                       (Inl e, h) \<Rightarrow> (Inl e, s1\<lparr>store := h\<rparr>)
                     | (Inr hessian, h) \<Rightarrow>
                         assign_grads xi (zip (alphas (net G)) (zip dalpha hessian))
                           (s1\<lparr>store := h\<rparr>)))))"

text \<open>\<open>pdt.index_select(-1, s_op)\<close>: an index outside the tensor is an IndexError.\<close>

definition index_select :: "tensor \<Rightarrow> nat list \<Rightarrow> error + tensor" where
  "index_select t s_op =
     (if list_all (\<lambda>i. i < length t) s_op then Inr (map (\<lambda>i. t ! i) s_op) else Inl IndexError)"

text \<open>\<open>k = torch.sum(torch.exp(pdt)) / torch.sum(torch.exp(pp)) - 1\<close>\<close>

definition renorm_k :: "tensor \<Rightarrow> nat list \<Rightarrow> error + fl" where
  "renorm_k pdt s_op =
     (case index_select pdt s_op of
        Inl e \<Rightarrow> Inl e
      | Inr pp \<Rightarrow> Inr (fsub (fdiv (fsum (map fexp pdt)) (fsum (map fexp pp))) (Fin 1)))"

text \<open>
  The first renormalization loop, over \<open>NASModule.param_modules()\<close>: each entry is an
  alpha parameter and the sampled subset \<open>s_op\<close> of its module. The sampler is not part
  of the sources; the subsets it drew are an input of the step.
\<close>

fun renorm_factors :: "(addr \<times> nat list) list \<Rightarrow> store \<Rightarrow> error + fl list" where
  "renorm_factors [] h = Inr []"
| "renorm_factors ((p, s_op) # pms) h =
     (case renorm_k (h p) s_op of
        Inl e \<Rightarrow> Inl e
      | Inr k \<Rightarrow> (case renorm_factors pms h of Inl e \<Rightarrow> Inl e | Inr ks \<Rightarrow> Inr (k # ks)))"

text \<open>
  \<open>for i in s_op: p[i] += shift\<close>, for a parameter on which torch permits the write.
  Every index is inside the tensor, since \<open>index_select\<close> has accepted \<open>s_op\<close> before.
\<close>

definition shift_ops :: "fl \<Rightarrow> nat list \<Rightarrow> tensor \<Rightarrow> tensor" where
  "shift_ops shift s_op t = fold (\<lambda>i t. t[i := fadd (t ! i) shift]) s_op t"

text \<open>
  The second renormalization loop. It does not run under \<open>torch.no_grad()\<close>, and
  \<open>p[i] += ...\<close> is an in-place write to a view of the parameter \<open>p\<close>: when \<open>p\<close>
  requires grad, torch raises a RuntimeError at the first index, before anything is
  written. The shift has been computed by then.
\<close>

fun renorm_shift ::
  "(addr \<Rightarrow> bool) \<Rightarrow> (fl \<times> addr \<times> nat list) list \<Rightarrow> store \<Rightarrow> (error + unit) \<times> store" where
  "renorm_shift rg [] h = (Inr (), h)"
| "renorm_shift rg ((kprev, p, s_op) # rest) h =
     (case renorm_k (h p) s_op of
        Inl e \<Rightarrow> (Inl e, h)
      | Inr k \<Rightarrow>
          if s_op \<noteq> [] \<and> rg p then (Inl RuntimeError, h)
          else renorm_shift rg rest (h(p := shift_ops (fsub (flog k) (flog kprev)) s_op (h p))))"

definition bg_step ::
  "env \<Rightarrow> gate \<Rightarrow> (addr \<times> nat list) list \<Rightarrow> fl \<Rightarrow> state \<Rightarrow> (error + unit) \<times> state" where
  "bg_step E G param_modules xi s =
     (case (if \<not> unrolled G then bg_first_order E G (zero_grad E s)
            else bg_unrolled E G xi (zero_grad E s)) of
        (Inl e, s1) \<Rightarrow> (Inl e, s1)
      | (Inr _, s1) \<Rightarrow>
          if renorm G
          then (case renorm_factors param_modules (store s1) of
                  Inl e \<Rightarrow> (Inl e, s1)
                | Inr prev_pw \<Rightarrow>
                    let s2 = optim_step E s1
                    in (case renorm_shift (requires_grad E) (zip prev_pw param_modules) (store s2) of
                          (r, h) \<Rightarrow> (r, s2\<lparr>store := h\<rparr>)))
          else (Inr (), optim_step E s1))"

section \<open>Well-formed inputs and the perturbed weights\<close>

text \<open>
  The store in which every weight \<open>w\<close> that is paired with a defined direction \<open>d\<close> holds
  \<open>w + c*d\<close> (with \<open>fadd\<close>) or \<open>w - c*d\<close> (with \<open>fsub\<close>), and every other tensor is as
  before.
\<close>

definition perturbed :: "(fl \<Rightarrow> fl \<Rightarrow> fl) \<Rightarrow> fl \<Rightarrow> (addr \<times> tensor option) list \<Rightarrow> store \<Rightarrow> store" where
  "perturbed f c ps h =
     (\<lambda>a. case map_of ps a of Some (Some d) \<Rightarrow> map2 f (h a) (smul c d) | _ \<Rightarrow> h a)"

text \<open>
  The weights are distinct parameters and every defined direction has the shape of its
  weight.
\<close>

definition shapes_ok :: "(addr \<times> tensor option) list \<Rightarrow> store \<Rightarrow> bool" where
  "shapes_ok ps h =
     (distinct (map fst ps) \<and>
      list_all (\<lambda>(p, d). case d of None \<Rightarrow> True | Some t \<Rightarrow> length t = length (h p)) ps)"

text \<open>
  The stores after the first, the second and the third perturbation stage: every weight
  with a defined direction \<open>d\<close> holds \<open>w + eps*d\<close>, then that value minus \<open>(2*eps)*d\<close>,
  then that value plus \<open>eps*d\<close>.
\<close>

definition stage_pos :: "fl \<Rightarrow> (addr \<times> tensor option) list \<Rightarrow> store \<Rightarrow> store" where
  "stage_pos eps ps h = perturbed fadd eps ps h"

definition stage_neg :: "fl \<Rightarrow> (addr \<times> tensor option) list \<Rightarrow> store \<Rightarrow> store" where
  "stage_neg eps ps h = perturbed fsub (fmul (Fin 2) eps) ps (stage_pos eps ps h)"

definition stage_end :: "fl \<Rightarrow> (addr \<times> tensor option) list \<Rightarrow> store \<Rightarrow> store" where
  "stage_end eps ps h = perturbed fadd eps ps (stage_neg eps ps h)"

text \<open>
  A correction that carries no finite information: a tensor whose entries are all infinite
  or NaN, or the plain number 0 that stands for an undefined gradient.
\<close>

definition degenerate_correction :: "pyval \<Rightarrow> bool" where
  "degenerate_correction v =
     (case v of Tensor t \<Rightarrow> list_all (\<lambda>x. \<not> is_fin x) t | Scalar c \<Rightarrow> c = Fin 0)"

text \<open>A strictly positive finite number.\<close>

fun pos_fin :: "fl \<Rightarrow> bool" where
  "pos_fin (Fin x) = (0 < x)"
| "pos_fin PInf = False"
| "pos_fin NInf = False"
| "pos_fin NaN = False"

text \<open>
  What a call may change: the store only at the addresses \<open>vs\<close>, no gradient field, no
  entry of the optimizer state that exists, and no momentum buffer.
\<close>

definition changes_only :: "addr list \<Rightarrow> state \<Rightarrow> state \<Rightarrow> bool" where
  "changes_only vs s s' =
     ((\<forall>a. a \<notin> set vs \<longrightarrow> store s' a = store s a)
      \<and> grad s' = grad s
      \<and> (\<forall>a d. w_state s a = Some d \<longrightarrow> w_state s' a = Some d)
      \<and> (\<forall>a. momentum_buffer (w_state s') a = momentum_buffer (w_state s) a))"

text \<open>
  Inputs on which the update loop cannot fail: every gradient is defined and has the shape
  of its weight, the virtual weight has the shape of the weight, and so has the momentum
  buffer if there is one.
\<close>

definition update_ready :: "(addr \<times> addr \<times> tensor option) list \<Rightarrow> state \<Rightarrow> bool" where
  "update_ready ws s =
     list_all (\<lambda>(w, vw, g).
        (case g of None \<Rightarrow> False | Some gt \<Rightarrow> length gt = length (store s w))
        \<and> length (store s vw) = length (store s w)
        \<and> (case w_state s w of Some (Some b) \<Rightarrow> length b = length (store s w) | _ \<Rightarrow> True)) ws"

text \<open>
  An environment that checks the invariant of the virtual alphas at run time: it refuses to
  evaluate the virtual model's validation loss unless every alpha tensor of the virtual
  model equals the corresponding alpha tensor of the real model.
\<close>

definition alphas_checked :: "'a architect_scheme \<Rightarrow> env \<Rightarrow> env" where
  "alphas_checked A E =
     E\<lparr>v_val_backward :=
         (\<lambda>h. if map h (alphas (v_net A)) = map h (alphas (net A)) then v_val_backward E h
              else Inl LossError)\<rparr>"

section \<open>The documented central difference\<close>

text \<open>
  The estimator's docstring and the specification give the correction as
  \<open>(dalpha_pos - dalpha_neg) / (2*eps)\<close>. This definition follows those words, for
  comparison with what \<open>darts_hessian\<close> and \<open>bg_hessian\<close> compute.
\<close>

definition central_difference :: "fl \<Rightarrow> tensor \<Rightarrow> tensor \<Rightarrow> error + tensor" where
  "central_difference eps p n =
     (case tsub p n of Inl e \<Rightarrow> Inl e | Inr t \<Rightarrow> Inr (tdivs t (fmul (Fin 2) eps)))"

text \<open>
  The specification gives the virtual weight as \<open>vw = w - xi * (m + g + wd * w)\<close>, where
  \<open>m\<close> is the momentum buffer scaled by \<open>mu\<close>, and zero without a buffer. This definition
  follows those words entry by entry on real numbers, for comparison with what
  \<open>virtual_weight\<close> computes.
\<close>

definition spec_virtual_weight ::
  "real \<Rightarrow> real \<Rightarrow> real \<Rightarrow> real list option \<Rightarrow> real list \<Rightarrow> real list \<Rightarrow> real list" where
  "spec_virtual_weight xi mu wd buf w g =
     map (\<lambda>i. w ! i - xi * ((case buf of None \<Rightarrow> 0 | Some b \<Rightarrow> b ! i * mu) + g ! i + wd * w ! i))
       [0..<length w]"

section \<open>Example inputs\<close>

text \<open>
  A network with one weight tensor (at address 0) and one alpha group (at address 1), both
  of two entries, and its architects.
\<close>

definition ex_net :: network where
  "ex_net = \<lparr>weights = [0], weights_check_grad = [0], alphas = [1]\<rparr>"

definition ex_darts :: architect where
  "ex_darts = fst (darts_init ex_net (Fin 0) (Fin 0) 2 \<lparr>store = (\<lambda>a. []), grad = (\<lambda>a. None), w_state = (\<lambda>a. None)\<rparr>)"

definition ex_gate :: gate where
  "ex_gate = fst (bg_init ex_net (Fin 0) (Fin 0) 2 True True 2 \<lparr>store = (\<lambda>a. []), grad = (\<lambda>a. None), w_state = (\<lambda>a. None)\<rparr>)"

definition zero_store :: store where
  "zero_store = (\<lambda>a. [Fin 0, Fin 0])"

text \<open>
  A training loss whose gradient with respect to every parameter is the current value of
  the weight tensor (as for a loss that is bilinear in the weight and the alpha).
\<close>

definition echo_env :: env where
  "echo_env =
     \<lparr>trn_backward = (\<lambda>h. Inr (\<lambda>a. Some (h 0))),
      val_backward = (\<lambda>h. Inr (\<lambda>a. Some (h 0))),
      v_val_backward = (\<lambda>h. Inr (\<lambda>a. Some (h 0))),
      a_params = [1], a_zero = (\<lambda>g. None), a_rule = (\<lambda>p g. p),
      requires_grad = (\<lambda>a. True)\<rparr>"

text \<open>A training loss whose evaluation raises.\<close>

definition raising_env :: env where
  "raising_env = echo_env\<lparr>trn_backward := (\<lambda>h. Inl LossError)\<rparr>"

text \<open>
  The same losses and optimizer for parameters that do not require grad, a store of three
  logits per tensor, and a state around a store.
\<close>

definition detached_env :: env where
  "detached_env = echo_env\<lparr>requires_grad := (\<lambda>a. False)\<rparr>"

definition three_logits :: store where
  "three_logits = (\<lambda>a. [Fin 0, Fin 0, Fin 0])"

definition ex_state :: "store \<Rightarrow> state" where
  "ex_state h = \<lparr>store = h, grad = (\<lambda>a. None), w_state = (\<lambda>a. None)\<rparr>"

text \<open>
  A network with two weight tensors \<open>[1.0]\<close> and \<open>[2.0]\<close> (at addresses 0 and 1) and one
  alpha group (at address 2), its architects, the state after their construction, and a
  training loss whose gradient is \<open>[0.5]\<close> for every parameter.
\<close>

definition two_net :: network where
  "two_net = \<lparr>weights = [0, 1], weights_check_grad = [0, 1], alphas = [2]\<rparr>"

definition two_store :: store where
  "two_store = (\<lambda>a. [Fin 0])(0 := [Fin 1], 1 := [Fin 2])"

definition two_darts :: architect where
  "two_darts = fst (darts_init two_net (Fin 0) (Fin 0) 3 (ex_state two_store))"

definition two_gate :: gate where
  "two_gate = fst (bg_init two_net (Fin 0) (Fin 0) 2 True True 3 (ex_state two_store))"

definition two_state :: state where
  "two_state = snd (darts_init two_net (Fin 0) (Fin 0) 3 (ex_state two_store))"

definition half_env :: env where
  "half_env = echo_env\<lparr>trn_backward := (\<lambda>h. Inr (\<lambda>a. Some [Fin (1 / 2)]))\<rparr>"

text \<open>A store whose tensors are all \<open>[3.0, 4.0]\<close>.\<close>

definition three_four :: store where
  "three_four = (\<lambda>a. [Fin 3, Fin 4])"

text \<open>
  A gated network with two weights, of which only the one at address 0 takes part in the
  sampled subgraph (\<open>weights(check_grad=True)\<close> yields it alone), its architect with the
  virtual copies at offset 3, and losses that give no gradient to the weight at address 1
  nor to its virtual copy at address 4.
\<close>

definition gated_net :: network where
  "gated_net = \<lparr>weights = [0, 1], weights_check_grad = [0], alphas = [2]\<rparr>"

definition gated_gate :: gate where
  "gated_gate = fst (bg_init gated_net (Fin 0) (Fin 0) 1 True True 3 (ex_state three_four))"

definition unused_weight_env :: env where
  "unused_weight_env =
     \<lparr>trn_backward = (\<lambda>h. Inr (\<lambda>a. if a = 1 \<or> a = 4 then None else Some (h 0))),
      val_backward = (\<lambda>h. Inr (\<lambda>a. if a = 1 \<or> a = 4 then None else Some (h 0))),
      v_val_backward = (\<lambda>h. Inr (\<lambda>a. if a = 1 \<or> a = 4 then None else Some (h 0))),
      a_params = [2], a_zero = (\<lambda>g. None), a_rule = (\<lambda>p g. p),
      requires_grad = (\<lambda>a. True)\<rparr>"

text \<open>Losses that do not use the alpha at address 1.\<close>

definition unused_alpha_env :: env where
  "unused_alpha_env =
     \<lparr>trn_backward = (\<lambda>h. Inr (\<lambda>a. if a = 1 then None else Some (h 0))),
      val_backward = (\<lambda>h. Inr (\<lambda>a. if a = 1 then None else Some (h 0))),
      v_val_backward = (\<lambda>h. Inr (\<lambda>a. if a = 1 then None else Some (h 0))),
      a_params = [1], a_zero = (\<lambda>g. None), a_rule = (\<lambda>p g. p),
      requires_grad = (\<lambda>a. True)\<rparr>"

text \<open>A gated architect built without unrolling: it has no virtual model.\<close>

definition first_order_gate :: gate where
  "first_order_gate = fst (bg_init ex_net (Fin 0) (Fin 0) 2 False True 2 (ex_state three_logits))"

text \<open>
  The architects of the two-weight network with momentum \<open>0.5\<close> and weight decay \<open>0.1\<close>,
  and the state in which the weight optimizer holds the momentum buffers \<open>[0.2]\<close> and
  \<open>[0.4]\<close> of the two weights.
\<close>

definition momentum_darts :: architect where
  "momentum_darts = fst (darts_init two_net (Fin (1 / 2)) (Fin (1 / 10)) 3 (ex_state two_store))"

definition momentum_gate :: gate where
  "momentum_gate = fst (bg_init two_net (Fin (1 / 2)) (Fin (1 / 10)) 2 True True 3 (ex_state two_store))"

definition buffered_state :: state where
  "buffered_state =
     two_state\<lparr>w_state := (\<lambda>a. None)(0 := Some (Some [Fin (1 / 5)]), 1 := Some (Some [Fin (2 / 5)]))\<rparr>"

section \<open>Arithmetic of tensor values\<close>

lemma sqrt_25: "sqrt 25 = 5"
  by (rule real_sqrt_unique) simp_all

lemma ex_darts_simps:
  "net ex_darts = ex_net" "v_net ex_darts = deepcopy_network 2 ex_net"
  "w_momentum ex_darts = Fin 0" "w_weight_decay ex_darts = Fin 0"
  by (simp_all add: ex_darts_def darts_init_def)

lemma ex_gate_simps:
  "net ex_gate = ex_net" "v_net ex_gate = (deepcopy_network 2 ex_net)\<lparr>alphas := alphas ex_net\<rparr>"
  "w_momentum ex_gate = Fin 0" "w_weight_decay ex_gate = Fin 0"
  "unrolled ex_gate" "renorm ex_gate"
  by (simp_all add: ex_gate_def bg_init_def)

lemma ex_net_simps:
  "weights ex_net = [0]" "weights_check_grad ex_net = [0]" "alphas ex_net = [1]"
  by (simp_all add: ex_net_def)

lemma two_net_simps:
  "weights two_net = [0, 1]" "weights_check_grad two_net = [0, 1]" "alphas two_net = [2]"
  by (simp_all add: two_net_def)

lemma two_darts_simps:
  "net two_darts = two_net" "v_net two_darts = deepcopy_network 3 two_net"
  "w_momentum two_darts = Fin 0" "w_weight_decay two_darts = Fin 0"
  by (simp_all add: two_darts_def darts_init_def)

lemma two_gate_simps:
  "net two_gate = two_net" "v_net two_gate = (deepcopy_network 3 two_net)\<lparr>alphas := alphas two_net\<rparr>"
  "w_momentum two_gate = Fin 0" "w_weight_decay two_gate = Fin 0" "unrolled two_gate" "renorm two_gate"
  by (simp_all add: two_gate_def bg_init_def)

lemma two_state_simps:
  "store two_state = deepcopy_store 3 two_store" "w_state two_state = (\<lambda>a. None)" "grad two_state = (\<lambda>a. None)"
  by (simp_all add: two_state_def darts_init_def ex_state_def)

lemma two_state_bg: "snd (bg_init two_net (Fin 0) (Fin 0) 2 True True 3 (ex_state two_store)) = two_state"
  by (simp add: two_state_def darts_init_def bg_init_def)

lemma two_store_cells:
  "deepcopy_store 3 two_store 0 = [Fin 1]" "deepcopy_store 3 two_store 1 = [Fin 2]"
  "deepcopy_store 3 two_store (Suc 0) = [Fin 2]"
  "deepcopy_store 3 two_store 2 = [Fin 0]" "deepcopy_store 3 two_store 3 = [Fin 1]"
  "deepcopy_store 3 two_store 4 = [Fin 2]" "deepcopy_store 3 two_store 5 = [Fin 0]"
  by (simp_all add: deepcopy_store_def two_store_def)

lemma darts_norm_3_4: "darts_norm [Some [Fin 3, Fin 4]] = Inr (Fin 5)"
  by (simp add: darts_norm_def torch_cat_def tnorm_def fsum_def sqrt_25)

lemma bg_norm_3_4: "bg_norm [Some [Fin 3, Fin 4]] = Inr (Fin 5)"
  by (simp add: bg_norm_def torch_cat_def tnorm_def fsum_def sqrt_25)



lemma views_undefined: "\<not> list_all (\<lambda>d. d \<noteq> None) dw \<Longrightarrow> views dw = Inl AttributeError"
proof (induction dw)
  case Nil
  then show ?case by simp
next
  case (Cons d dw)
  then show ?case by (cases d) (auto split: sum.splits)
qed

section \<open>The three perturbation stages\<close>

lemma bg_perturb_perturbed:
  assumes op: "\<And>s t. length s = length t \<Longrightarrow> op s t = Inr (map2 f s t)"
  shows "shapes_ok ps h \<Longrightarrow> bg_perturb op c ps h = (Inr (), perturbed f c ps h)"
proof (induction ps arbitrary: h)
  case Nil
  show ?case by (simp add: perturbed_def)
next
  case (Cons pd ps)
  obtain p d where pd: "pd = (p, d)" by (cases pd)
  from Cons.prems have notin: "p \<notin> fst ` set ps" and dist: "distinct (map fst ps)"
    and rest: "list_all (\<lambda>(p, d). case d of None \<Rightarrow> True | Some t \<Rightarrow> length t = length (h p)) ps"
    by (simp_all add: shapes_ok_def pd)
  have none: "map_of ps p = None" using notin by (simp add: map_of_eq_None_iff)
  show ?case
  proof (cases d)
    case None
    have "shapes_ok ps h" using dist rest by (simp add: shapes_ok_def)
    from Cons.IH[OF this] have "bg_perturb op c ps h = (Inr (), perturbed f c ps h)" .
    moreover have "perturbed f c ((p, None) # ps) h = perturbed f c ps h"
      using none by (auto simp: perturbed_def fun_eq_iff split: option.splits)
    ultimately show ?thesis by (simp add: pd None)
  next
    case (Some t)
    from Cons.prems have len: "length t = length (h p)" by (simp add: shapes_ok_def pd Some)
    let ?h = "h(p := map2 f (h p) (smul c t))"
    have "case d' of None \<Rightarrow> True | Some t \<Rightarrow> length t = length (?h q)" if "(q, d') \<in> set ps" for q d'
    proof -
      from that notin have "q \<noteq> p" by force
      moreover from rest that have "case d' of None \<Rightarrow> True | Some t \<Rightarrow> length t = length (h q)"
        by (auto simp: list_all_iff)
      ultimately show ?thesis by (cases d') simp_all
    qed
    then have "list_all (\<lambda>(q, d). case d of None \<Rightarrow> True | Some t \<Rightarrow> length t = length (?h q)) ps"
      unfolding list_all_iff by (auto simp del: fun_upd_apply)
    then have "shapes_ok ps ?h" using dist by (simp add: shapes_ok_def)
    from Cons.IH[OF this] have "bg_perturb op c ps ?h = (Inr (), perturbed f c ps ?h)" .
    moreover have "perturbed f c ((p, Some t) # ps) h = perturbed f c ps ?h"
      using none by (auto simp: perturbed_def fun_eq_iff split: option.splits)
    moreover have "op (h p) (smul c t) = Inr (map2 f (h p) (smul c t))"
      using len by (intro op) (simp add: smul_def)
    ultimately show ?thesis by (simp add: pd Some)
  qed
qed

lemma shapes_ok_perturbed: "shapes_ok ps h \<Longrightarrow> shapes_ok ps (perturbed f c ps h)"
  by (auto simp: shapes_ok_def perturbed_def list_all_iff smul_def split: option.splits)

lemma tadd_same_length: "length s = length t \<Longrightarrow> tadd s t = Inr (map2 fadd s t)"
  by (simp add: tadd_def)

lemma tsub_same_length: "length s = length t \<Longrightarrow> tsub s t = Inr (map2 fsub s t)"
  by (simp add: tsub_def)

lemma views_defined: "views dw = Inr ts \<Longrightarrow> ts = defined_views dw \<and> list_all (\<lambda>d. d \<noteq> None) dw"
proof (induction dw arbitrary: ts)
  case Nil
  then show ?case by simp
next
  case (Cons d dw)
  then show ?case by (cases d) (auto split: sum.splits)
qed

lemma darts_norm_bg_norm: "darts_norm dw = Inr n \<Longrightarrow> bg_norm dw = Inr n \<and> list_all (\<lambda>d. d \<noteq> None) dw"
  by (auto simp: darts_norm_def bg_norm_def dest: views_defined split: sum.splits)

lemma darts_perturb_bg_perturb:
  "list_all (\<lambda>pd. snd pd \<noteq> None) ps \<Longrightarrow> darts_perturb op c ps h = bg_perturb op c ps h"
proof (induction ps arbitrary: h)
  case Nil
  show ?case by simp
next
  case (Cons pd ps)
  then show ?case by (cases pd) (auto split: sum.splits)
qed

lemma zip_all_defined: "list_all (\<lambda>d. d \<noteq> None) dw \<Longrightarrow> list_all (\<lambda>pd. snd pd \<noteq> None) (zip ws dw)"
  by (auto simp: list_all_iff dest: set_zip_rightD)

lemma bg_stages:
  assumes ok: "shapes_ok ps h"
  shows "bg_perturb tadd eps ps h = (Inr (), stage_pos eps ps h)"
    and "bg_perturb tsub (fmul (Fin 2) eps) ps (stage_pos eps ps h) = (Inr (), stage_neg eps ps h)"
    and "bg_perturb tadd eps ps (stage_neg eps ps h) = (Inr (), stage_end eps ps h)"
proof -
  have ok1: "shapes_ok ps (stage_pos eps ps h)"
    unfolding stage_pos_def by (rule shapes_ok_perturbed[OF ok])
  have ok2: "shapes_ok ps (stage_neg eps ps h)"
    unfolding stage_neg_def by (rule shapes_ok_perturbed[OF ok1])
  show "bg_perturb tadd eps ps h = (Inr (), stage_pos eps ps h)"
    unfolding stage_pos_def by (rule bg_perturb_perturbed) (simp_all add: tadd_def ok)
  show "bg_perturb tsub (fmul (Fin 2) eps) ps (stage_pos eps ps h) = (Inr (), stage_neg eps ps h)"
    unfolding stage_neg_def by (rule bg_perturb_perturbed) (simp_all add: tsub_def ok1)
  show "bg_perturb tadd eps ps (stage_neg eps ps h) = (Inr (), stage_end eps ps h)"
    unfolding stage_end_def by (rule bg_perturb_perturbed) (simp_all add: tadd_def ok2)
qed

lemma perturbed_at:
  "distinct (map fst ps) \<Longrightarrow> (p, Some d) \<in> set ps \<Longrightarrow> perturbed f c ps h p = map2 f (h p) (smul c d)"
  by (simp add: perturbed_def)

lemma perturbed_skipped:
  "distinct (map fst ps) \<Longrightarrow> (p, None) \<in> set ps \<Longrightarrow> perturbed f c ps h p = h p"
  by (simp add: perturbed_def)

lemma perturbed_elsewhere: "p \<notin> fst ` set ps \<Longrightarrow> perturbed f c ps h p = h p"
proof -
  assume "p \<notin> fst ` set ps"
  then have "map_of ps p = None" by (simp add: map_of_eq_None_iff)
  then show ?thesis by (simp add: perturbed_def)
qed

lemma stages_at:
  assumes "shapes_ok ps h" and "(p, Some d) \<in> set ps"
  shows "stage_pos eps ps h p = map2 fadd (h p) (smul eps d)"
    and "stage_neg eps ps h p = map2 fsub (map2 fadd (h p) (smul eps d)) (smul (fmul (Fin 2) eps) d)"
    and "stage_end eps ps h p
           = map2 fadd (map2 fsub (map2 fadd (h p) (smul eps d)) (smul (fmul (Fin 2) eps) d)) (smul eps d)"
  using assms by (simp_all add: stage_pos_def stage_neg_def stage_end_def shapes_ok_def perturbed_at)

lemma stages_skipped:
  assumes "shapes_ok ps h" and "(p, None) \<in> set ps \<or> p \<notin> fst ` set ps"
  shows "stage_pos eps ps h p = h p" and "stage_neg eps ps h p = h p" and "stage_end eps ps h p = h p"
  using assms
  by (auto simp: stage_pos_def stage_neg_def stage_end_def shapes_ok_def perturbed_skipped perturbed_elsewhere)

lemma bg_compute_hessian_stages:
  assumes "bg_norm dw = Inr nrm" and "eps = fdiv (Fin (1 / 100)) nrm"
    and "ps = zip (weights_check_grad (net G)) dw" and "shapes_ok ps h"
  shows "bg_compute_hessian E G dw h =
     (case autograd_grad True (trn_backward E (stage_pos eps ps h)) (alphas (net G)) of
        Inl e \<Rightarrow> (Inl e, stage_pos eps ps h)
      | Inr dalpha_pos \<Rightarrow>
          (case autograd_grad True (trn_backward E (stage_neg eps ps h)) (alphas (net G)) of
             Inl e \<Rightarrow> (Inl e, stage_neg eps ps h)
           | Inr dalpha_neg \<Rightarrow> (bg_hessian eps (zip dalpha_pos dalpha_neg), stage_end eps ps h)))"
  unfolding bg_compute_hessian_def Let_def
  by (simp only: assms(1) assms(2)[symmetric] assms(3)[symmetric] bg_stages[OF assms(4)] sum.case prod.case
      split: sum.splits)

lemma darts_compute_hessian_stages:
  assumes "darts_norm dw = Inr nrm" and "eps = fdiv (Fin (1 / 100)) nrm"
    and "ps = zip (weights (net A)) dw" and "shapes_ok ps h"
  shows "darts_compute_hessian E A dw h =
     (case autograd_grad False (trn_backward E (stage_pos eps ps h)) (alphas (net A)) of
        Inl e \<Rightarrow> (Inl e, stage_pos eps ps h)
      | Inr dalpha_pos \<Rightarrow>
          (case autograd_grad False (trn_backward E (stage_neg eps ps h)) (alphas (net A)) of
             Inl e \<Rightarrow> (Inl e, stage_neg eps ps h)
           | Inr dalpha_neg \<Rightarrow> (darts_hessian eps (zip dalpha_pos dalpha_neg), stage_end eps ps h)))"
proof -
  have def: "list_all (\<lambda>pd. snd pd \<noteq> None) ps"
    unfolding assms(3) using darts_norm_bg_norm[OF assms(1), THEN conjunct2] by (rule zip_all_defined)
  show ?thesis
    unfolding darts_compute_hessian_def Let_def
    by (simp only: assms(1) assms(2)[symmetric] assms(3)[symmetric] darts_perturb_bg_perturb[OF def]
        bg_stages[OF assms(4)] sum.case prod.case split: sum.splits)
qed

section \<open>The scaling of the correction\<close>

text \<open>
  C1. The claim: each returned correction equals \<open>(dalpha_pos - dalpha_neg) / (2 * eps)\<close>.
  The code evaluates \<open>(p-n) / 2.*eps\<close>, which is \<open>((p-n) / 2) * eps\<close>. At the direction
  \<open>[3, 4]\<close> (norm 5, \<open>eps = 1/500\<close>), weights \<open>[0, 0]\<close> and a loss whose alpha gradient is
  the weight tensor, the two gradients are \<open>[3/500, 4/500]\<close> and \<open>[-3/500, -4/500]\<close>: both
  variants return \<open>[3/250000, 1/62500]\<close>, while the documented central difference is
  \<open>[3, 4]\<close>.
\<close>

theorem hessian_scaling_differs:
  "fst (darts_compute_hessian echo_env ex_darts [Some [Fin 3, Fin 4]] zero_store)
     = Inr [Tensor [Fin (3 / 250000), Fin (1 / 62500)]]
   \<and> fst (bg_compute_hessian echo_env ex_gate [Some [Fin 3, Fin 4]] zero_store)
     = Inr [Tensor [Fin (3 / 250000), Fin (1 / 62500)]]
   \<and> central_difference (Fin (1 / 500)) [Fin (3 / 500), Fin (4 / 500)] [Fin (- 3 / 500), Fin (- 4 / 500)]
     = Inr [Fin 3, Fin 4]"
  by (simp add: darts_compute_hessian_def bg_compute_hessian_def darts_norm_3_4 bg_norm_3_4
      ex_darts_simps ex_gate_simps ex_net_simps echo_env_def zero_store_def central_difference_def
      autograd_grad_def tadd_def tsub_def smul_def tmuls_def tdivs_def fsub_def Let_def)

section \<open>The weights when the estimator is left\<close>

text \<open>
  The claim C2 fails on both paths. Nothing in \<open>compute_hessian\<close> unwinds the
  perturbation: when the loss raises after the first stage, the error propagates and the
  weight tensor \<open>[0, 0]\<close> is left at \<open>[3/500, 4/500]\<close>. And the three stages do not always
  net to zero: for the direction \<open>[0, 0]\<close> the scale is \<open>0.01 / 0 = inf\<close>, the first stage
  writes \<open>inf * 0 = NaN\<close>, and the call returns with the weight tensor \<open>[3, 4]\<close> left at
  \<open>[NaN, NaN]\<close>.
\<close>

theorem failure_leaves_weights_perturbed:
  "fst (darts_compute_hessian raising_env ex_darts [Some [Fin 3, Fin 4]] zero_store) = Inl LossError
   \<and> snd (darts_compute_hessian raising_env ex_darts [Some [Fin 3, Fin 4]] zero_store) 0
        = [Fin (3 / 500), Fin (4 / 500)]
   \<and> zero_store 0 = [Fin 0, Fin 0]
   \<and> fst (bg_compute_hessian raising_env ex_gate [Some [Fin 3, Fin 4]] zero_store) = Inl LossError
   \<and> snd (bg_compute_hessian raising_env ex_gate [Some [Fin 3, Fin 4]] zero_store) 0
        = [Fin (3 / 500), Fin (4 / 500)]
   \<and> fst (darts_compute_hessian echo_env ex_darts [Some [Fin 0, Fin 0]] three_four) = Inr [Tensor [NaN, NaN]]
   \<and> snd (darts_compute_hessian echo_env ex_darts [Some [Fin 0, Fin 0]] three_four) 0 = [NaN, NaN]
   \<and> fst (bg_compute_hessian echo_env ex_gate [Some [Fin 0, Fin 0]] three_four) = Inr [Tensor [NaN, NaN]]
   \<and> snd (bg_compute_hessian echo_env ex_gate [Some [Fin 0, Fin 0]] three_four) 0 = [NaN, NaN]
   \<and> three_four 0 = [Fin 3, Fin 4]"
  by (simp add: darts_compute_hessian_def bg_compute_hessian_def darts_norm_3_4 bg_norm_3_4
      darts_norm_def bg_norm_def torch_cat_def tnorm_def fsum_def inf_signed_def
      ex_darts_simps ex_gate_simps ex_net_simps raising_env_def echo_env_def zero_store_def three_four_def
      autograd_grad_def tadd_def tsub_def smul_def tmuls_def tdivs_def fsub_def Let_def)

text \<open>
  C2, as amended. For distinct weights and directions of matching shapes, \<open>compute_hessian\<close>
  (either variant) does three in-place updates and nothing else to the weights. When the
  first gradient evaluation raises, the error propagates with the weights left at the
  first stage, \<open>w + eps*dw\<close>; when the second one raises, with the weights left at the
  second stage, that value minus \<open>(2*eps)*dw\<close>; when both return, the call returns with
  every weight that has a defined direction left at the value of
  \<open>((w + eps*dw) - (2*eps)*dw) + eps*dw\<close> in the arithmetic of the tensors, and every
  other tensor as it was. No copy of the weights is kept and nothing is written back.
\<close>

theorem weights_on_exit:
  assumes "darts_norm dw = Inr nrm" and "shapes_ok (zip (weights (net A)) dw) h"
    and "bg_norm dw' = Inr nrm'" and "shapes_ok (zip (weights_check_grad (net G)) dw') h'"
  shows
    "(let eps = fdiv (Fin (1 / 100)) nrm;
          ps = zip (weights (net A)) dw;
          dalpha_pos = autograd_grad False (trn_backward E (stage_pos eps ps h)) (alphas (net A));
          dalpha_neg = autograd_grad False (trn_backward E (stage_neg eps ps h)) (alphas (net A))
      in (\<forall>e. dalpha_pos = Inl e \<longrightarrow> darts_compute_hessian E A dw h = (Inl e, stage_pos eps ps h))
       \<and> (\<forall>e dp. dalpha_pos = Inr dp \<and> dalpha_neg = Inl e
             \<longrightarrow> darts_compute_hessian E A dw h = (Inl e, stage_neg eps ps h))
       \<and> (\<forall>dp dn. dalpha_pos = Inr dp \<and> dalpha_neg = Inr dn
             \<longrightarrow> snd (darts_compute_hessian E A dw h) = stage_end eps ps h)
       \<and> (\<forall>p d. (p, Some d) \<in> set ps \<longrightarrow>
             stage_pos eps ps h p = map2 fadd (h p) (smul eps d)
             \<and> stage_neg eps ps h p = map2 fsub (map2 fadd (h p) (smul eps d)) (smul (fmul (Fin 2) eps) d)
             \<and> stage_end eps ps h p
                 = map2 fadd (map2 fsub (map2 fadd (h p) (smul eps d)) (smul (fmul (Fin 2) eps) d))
                     (smul eps d))
       \<and> (\<forall>p. p \<notin> fst ` set ps \<longrightarrow> stage_pos eps ps h p = h p \<and> stage_neg eps ps h p = h p
             \<and> stage_end eps ps h p = h p))
     \<and>
     (let eps = fdiv (Fin (1 / 100)) nrm';
          ps = zip (weights_check_grad (net G)) dw';
          dalpha_pos = autograd_grad True (trn_backward E (stage_pos eps ps h')) (alphas (net G));
          dalpha_neg = autograd_grad True (trn_backward E (stage_neg eps ps h')) (alphas (net G))
      in (\<forall>e. dalpha_pos = Inl e \<longrightarrow> bg_compute_hessian E G dw' h' = (Inl e, stage_pos eps ps h'))
       \<and> (\<forall>e dp. dalpha_pos = Inr dp \<and> dalpha_neg = Inl e
             \<longrightarrow> bg_compute_hessian E G dw' h' = (Inl e, stage_neg eps ps h'))
       \<and> (\<forall>dp dn. dalpha_pos = Inr dp \<and> dalpha_neg = Inr dn
             \<longrightarrow> snd (bg_compute_hessian E G dw' h') = stage_end eps ps h')
       \<and> (\<forall>p d. (p, Some d) \<in> set ps \<longrightarrow>
             stage_pos eps ps h' p = map2 fadd (h' p) (smul eps d)
             \<and> stage_neg eps ps h' p = map2 fsub (map2 fadd (h' p) (smul eps d)) (smul (fmul (Fin 2) eps) d)
             \<and> stage_end eps ps h' p
                 = map2 fadd (map2 fsub (map2 fadd (h' p) (smul eps d)) (smul (fmul (Fin 2) eps) d))
                     (smul eps d))
       \<and> (\<forall>p. (p, None) \<in> set ps \<or> p \<notin> fst ` set ps \<longrightarrow> stage_pos eps ps h' p = h' p
             \<and> stage_neg eps ps h' p = h' p \<and> stage_end eps ps h' p = h' p))"
proof (rule conjI)
  let ?eps = "fdiv (Fin (1 / 100)) nrm"
  let ?ps = "zip (weights (net A)) dw"
  note run = darts_compute_hessian_stages[OF assms(1) refl refl assms(2), of E]
  have a: "\<forall>e. autograd_grad False (trn_backward E (stage_pos ?eps ?ps h)) (alphas (net A)) = Inl e
      \<longrightarrow> darts_compute_hessian E A dw h = (Inl e, stage_pos ?eps ?ps h)"
    by (simp add: run)
  have b: "\<forall>e dp. autograd_grad False (trn_backward E (stage_pos ?eps ?ps h)) (alphas (net A)) = Inr dp
        \<and> autograd_grad False (trn_backward E (stage_neg ?eps ?ps h)) (alphas (net A)) = Inl e
      \<longrightarrow> darts_compute_hessian E A dw h = (Inl e, stage_neg ?eps ?ps h)"
    by (simp add: run)
  have c: "\<forall>dp dn. autograd_grad False (trn_backward E (stage_pos ?eps ?ps h)) (alphas (net A)) = Inr dp
        \<and> autograd_grad False (trn_backward E (stage_neg ?eps ?ps h)) (alphas (net A)) = Inr dn
      \<longrightarrow> snd (darts_compute_hessian E A dw h) = stage_end ?eps ?ps h"
    by (simp add: run)
  have d: "\<forall>p d. (p, Some d) \<in> set ?ps \<longrightarrow>
             stage_pos ?eps ?ps h p = map2 fadd (h p) (smul ?eps d)
             \<and> stage_neg ?eps ?ps h p = map2 fsub (map2 fadd (h p) (smul ?eps d)) (smul (fmul (Fin 2) ?eps) d)
             \<and> stage_end ?eps ?ps h p
                 = map2 fadd (map2 fsub (map2 fadd (h p) (smul ?eps d)) (smul (fmul (Fin 2) ?eps) d))
                     (smul ?eps d)"
    using stages_at[OF assms(2)] by blast
  have e: "\<forall>p. p \<notin> fst ` set ?ps \<longrightarrow> stage_pos ?eps ?ps h p = h p \<and> stage_neg ?eps ?ps h p = h p
             \<and> stage_end ?eps ?ps h p = h p"
    using stages_skipped[OF assms(2)] by blast
  show "let eps = fdiv (Fin (1 / 100)) nrm;
          ps = zip (weights (net A)) dw;
          dalpha_pos = autograd_grad False (trn_backward E (stage_pos eps ps h)) (alphas (net A));
          dalpha_neg = autograd_grad False (trn_backward E (stage_neg eps ps h)) (alphas (net A))
      in (\<forall>e. dalpha_pos = Inl e \<longrightarrow> darts_compute_hessian E A dw h = (Inl e, stage_pos eps ps h))
       \<and> (\<forall>e dp. dalpha_pos = Inr dp \<and> dalpha_neg = Inl e
             \<longrightarrow> darts_compute_hessian E A dw h = (Inl e, stage_neg eps ps h))
       \<and> (\<forall>dp dn. dalpha_pos = Inr dp \<and> dalpha_neg = Inr dn
             \<longrightarrow> snd (darts_compute_hessian E A dw h) = stage_end eps ps h)
       \<and> (\<forall>p d. (p, Some d) \<in> set ps \<longrightarrow>
             stage_pos eps ps h p = map2 fadd (h p) (smul eps d)
             \<and> stage_neg eps ps h p = map2 fsub (map2 fadd (h p) (smul eps d)) (smul (fmul (Fin 2) eps) d)
             \<and> stage_end eps ps h p
                 = map2 fadd (map2 fsub (map2 fadd (h p) (smul eps d)) (smul (fmul (Fin 2) eps) d))
                     (smul eps d))
       \<and> (\<forall>p. p \<notin> fst ` set ps \<longrightarrow> stage_pos eps ps h p = h p \<and> stage_neg eps ps h p = h p
             \<and> stage_end eps ps h p = h p)"
    unfolding Let_def using a b c d e by (intro conjI)
next
  let ?eps = "fdiv (Fin (1 / 100)) nrm'"
  let ?ps = "zip (weights_check_grad (net G)) dw'"
  note run = bg_compute_hessian_stages[OF assms(3) refl refl assms(4), of E]
  have a: "\<forall>e. autograd_grad True (trn_backward E (stage_pos ?eps ?ps h')) (alphas (net G)) = Inl e
      \<longrightarrow> bg_compute_hessian E G dw' h' = (Inl e, stage_pos ?eps ?ps h')"
    by (simp add: run)
  have b: "\<forall>e dp. autograd_grad True (trn_backward E (stage_pos ?eps ?ps h')) (alphas (net G)) = Inr dp
        \<and> autograd_grad True (trn_backward E (stage_neg ?eps ?ps h')) (alphas (net G)) = Inl e
      \<longrightarrow> bg_compute_hessian E G dw' h' = (Inl e, stage_neg ?eps ?ps h')"
    by (simp add: run)
  have c: "\<forall>dp dn. autograd_grad True (trn_backward E (stage_pos ?eps ?ps h')) (alphas (net G)) = Inr dp
        \<and> autograd_grad True (trn_backward E (stage_neg ?eps ?ps h')) (alphas (net G)) = Inr dn
      \<longrightarrow> snd (bg_compute_hessian E G dw' h') = stage_end ?eps ?ps h'"
    by (simp add: run)
  have d: "\<forall>p d. (p, Some d) \<in> set ?ps \<longrightarrow>
             stage_pos ?eps ?ps h' p = map2 fadd (h' p) (smul ?eps d)
             \<and> stage_neg ?eps ?ps h' p = map2 fsub (map2 fadd (h' p) (smul ?eps d)) (smul (fmul (Fin 2) ?eps) d)
             \<and> stage_end ?eps ?ps h' p
                 = map2 fadd (map2 fsub (map2 fadd (h' p) (smul ?eps d)) (smul (fmul (Fin 2) ?eps) d))
                     (smul ?eps d)"
    using stages_at[OF assms(4)] by blast
  have e: "\<forall>p. (p, None) \<in> set ?ps \<or> p \<notin> fst ` set ?ps \<longrightarrow> stage_pos ?eps ?ps h' p = h' p
             \<and> stage_neg ?eps ?ps h' p = h' p \<and> stage_end ?eps ?ps h' p = h' p"
    using stages_skipped[OF assms(4)] by blast
  show "let eps = fdiv (Fin (1 / 100)) nrm';
          ps = zip (weights_check_grad (net G)) dw';
          dalpha_pos = autograd_grad True (trn_backward E (stage_pos eps ps h')) (alphas (net G));
          dalpha_neg = autograd_grad True (trn_backward E (stage_neg eps ps h')) (alphas (net G))
      in (\<forall>e. dalpha_pos = Inl e \<longrightarrow> bg_compute_hessian E G dw' h' = (Inl e, stage_pos eps ps h'))
       \<and> (\<forall>e dp. dalpha_pos = Inr dp \<and> dalpha_neg = Inl e
             \<longrightarrow> bg_compute_hessian E G dw' h' = (Inl e, stage_neg eps ps h'))
       \<and> (\<forall>dp dn. dalpha_pos = Inr dp \<and> dalpha_neg = Inr dn
             \<longrightarrow> snd (bg_compute_hessian E G dw' h') = stage_end eps ps h')
       \<and> (\<forall>p d. (p, Some d) \<in> set ps \<longrightarrow>
             stage_pos eps ps h' p = map2 fadd (h' p) (smul eps d)
             \<and> stage_neg eps ps h' p = map2 fsub (map2 fadd (h' p) (smul eps d)) (smul (fmul (Fin 2) eps) d)
             \<and> stage_end eps ps h' p
                 = map2 fadd (map2 fsub (map2 fadd (h' p) (smul eps d)) (smul (fmul (Fin 2) eps) d))
                     (smul eps d))
       \<and> (\<forall>p. (p, None) \<in> set ps \<or> p \<notin> fst ` set ps \<longrightarrow> stage_pos eps ps h' p = h' p
             \<and> stage_neg eps ps h' p = h' p \<and> stage_end eps ps h' p = h' p)"
    unfolding Let_def using a b c d e by (intro conjI)
qed

lemma three_four_shapes:
  "shapes_ok (zip (weights (net ex_darts)) [Some [Fin 3, Fin 4]]) three_four"
  "shapes_ok (zip (weights_check_grad (net ex_gate)) [Some [Fin 3, Fin 4]]) three_four"
  by (simp_all add: shapes_ok_def three_four_def ex_darts_simps ex_gate_simps ex_net_simps)

theorem weights_on_exit_witness:
  "darts_norm [Some [Fin 3, Fin 4]] = Inr (Fin 5)
   \<and> shapes_ok (zip (weights (net ex_darts)) [Some [Fin 3, Fin 4]]) three_four
   \<and> bg_norm [Some [Fin 3, Fin 4]] = Inr (Fin 5)
   \<and> shapes_ok (zip (weights_check_grad (net ex_gate)) [Some [Fin 3, Fin 4]]) three_four
   \<and> snd (darts_compute_hessian echo_env ex_darts [Some [Fin 3, Fin 4]] three_four)
        = stage_end (Fin (1 / 500)) [(0, Some [Fin 3, Fin 4])] three_four
   \<and> snd (bg_compute_hessian echo_env ex_gate [Some [Fin 3, Fin 4]] three_four)
        = stage_end (Fin (1 / 500)) [(0, Some [Fin 3, Fin 4])] three_four
   \<and> darts_compute_hessian raising_env ex_darts [Some [Fin 3, Fin 4]] three_four
        = (Inl LossError, stage_pos (Fin (1 / 500)) [(0, Some [Fin 3, Fin 4])] three_four)
   \<and> bg_compute_hessian raising_env ex_gate [Some [Fin 3, Fin 4]] three_four
        = (Inl LossError, stage_pos (Fin (1 / 500)) [(0, Some [Fin 3, Fin 4])] three_four)
   \<and> stage_pos (Fin (1 / 500)) [(0, Some [Fin 3, Fin 4])] three_four 0
        = map2 fadd (three_four 0) (smul (Fin (1 / 500)) [Fin 3, Fin 4])
   \<and> stage_end (Fin (1 / 500)) [(0, Some [Fin 3, Fin 4])] three_four 0
        = map2 fadd
            (map2 fsub (map2 fadd (three_four 0) (smul (Fin (1 / 500)) [Fin 3, Fin 4]))
               (smul (fmul (Fin 2) (Fin (1 / 500))) [Fin 3, Fin 4]))
            (smul (Fin (1 / 500)) [Fin 3, Fin 4])
   \<and> stage_end (Fin (1 / 500)) [(0, Some [Fin 3, Fin 4])] three_four 1 = three_four 1"
proof -
  have n1: "darts_norm [Some [Fin 3, Fin 4]] = Inr (Fin 5)" by (rule darts_norm_3_4)
  have n2: "bg_norm [Some [Fin 3, Fin 4]] = Inr (Fin 5)" by (rule bg_norm_3_4)
  note s1 = three_four_shapes(1)
  note s2 = three_four_shapes(2)
  have eps: "fdiv (Fin (1 / 100)) (Fin 5) = Fin (1 / 500)" by simp
  have ps: "zip (weights (net ex_darts)) [Some [Fin 3, Fin 4]] = [(0, Some [Fin 3, Fin 4])]"
    "zip (weights_check_grad (net ex_gate)) [Some [Fin 3, Fin 4]] = [(0, Some [Fin 3, Fin 4])]"
    by (simp_all add: ex_darts_simps ex_gate_simps ex_net_simps)
  note ok = weights_on_exit[OF n1 s1 n2 s2, of echo_env, unfolded Let_def eps ps]
  note bad = weights_on_exit[OF n1 s1 n2 s2, of raising_env, unfolded Let_def eps ps]
  let ?ps = "[(0::nat, Some [Fin 3, Fin 4])]"
  have pd: "autograd_grad False (trn_backward echo_env (stage_pos (Fin (1 / 500)) ?ps three_four))
      (alphas (net ex_darts)) = Inr [Some (stage_pos (Fin (1 / 500)) ?ps three_four 0)]"
    and nd: "autograd_grad False (trn_backward echo_env (stage_neg (Fin (1 / 500)) ?ps three_four))
      (alphas (net ex_darts)) = Inr [Some (stage_neg (Fin (1 / 500)) ?ps three_four 0)]"
    and pg: "autograd_grad True (trn_backward echo_env (stage_pos (Fin (1 / 500)) ?ps three_four))
      (alphas (net ex_gate)) = Inr [Some (stage_pos (Fin (1 / 500)) ?ps three_four 0)]"
    and ng: "autograd_grad True (trn_backward echo_env (stage_neg (Fin (1 / 500)) ?ps three_four))
      (alphas (net ex_gate)) = Inr [Some (stage_neg (Fin (1 / 500)) ?ps three_four 0)]"
    by (simp_all add: echo_env_def autograd_grad_def ex_darts_simps ex_gate_simps ex_net_simps)
  have rd: "autograd_grad False (trn_backward raising_env (stage_pos (Fin (1 / 500)) ?ps three_four))
      (alphas (net ex_darts)) = Inl LossError"
    and rg: "autograd_grad True (trn_backward raising_env (stage_pos (Fin (1 / 500)) ?ps three_four))
      (alphas (net ex_gate)) = Inl LossError"
    by (simp_all add: raising_env_def echo_env_def autograd_grad_def)
  have m: "(0, Some [Fin 3, Fin 4]) \<in> set ?ps" and m': "(1::nat) \<notin> fst ` set ?ps" by simp_all
  from ok pd nd
  have a: "snd (darts_compute_hessian echo_env ex_darts [Some [Fin 3, Fin 4]] three_four)
        = stage_end (Fin (1 / 500)) [(0, Some [Fin 3, Fin 4])] three_four"
    by blast
  from ok pg ng
  have b: "snd (bg_compute_hessian echo_env ex_gate [Some [Fin 3, Fin 4]] three_four)
        = stage_end (Fin (1 / 500)) [(0, Some [Fin 3, Fin 4])] three_four"
    by blast
  from bad rd
  have c: "darts_compute_hessian raising_env ex_darts [Some [Fin 3, Fin 4]] three_four
        = (Inl LossError, stage_pos (Fin (1 / 500)) [(0, Some [Fin 3, Fin 4])] three_four)"
    by blast
  from bad rg
  have d: "bg_compute_hessian raising_env ex_gate [Some [Fin 3, Fin 4]] three_four
        = (Inl LossError, stage_pos (Fin (1 / 500)) [(0, Some [Fin 3, Fin 4])] three_four)"
    by blast
  from ok m
  have e: "stage_pos (Fin (1 / 500)) [(0, Some [Fin 3, Fin 4])] three_four 0
        = map2 fadd (three_four 0) (smul (Fin (1 / 500)) [Fin 3, Fin 4])"
    by blast
  from ok m
  have f: "stage_end (Fin (1 / 500)) [(0, Some [Fin 3, Fin 4])] three_four 0
        = map2 fadd
            (map2 fsub (map2 fadd (three_four 0) (smul (Fin (1 / 500)) [Fin 3, Fin 4]))
               (smul (fmul (Fin 2) (Fin (1 / 500))) [Fin 3, Fin 4]))
            (smul (Fin (1 / 500)) [Fin 3, Fin 4])"
    by blast
  from ok m'
  have g: "stage_end (Fin (1 / 500)) [(0, Some [Fin 3, Fin 4])] three_four 1 = three_four 1"
    by blast
  show ?thesis using n1 n2 s1 s2 a b c d e f g by (intro conjI)
qed

section \<open>Degenerate directions\<close>

lemma fmul_PInf_not_finite: "\<not> is_fin (fmul x PInf)"
  by (cases x) (simp_all add: inf_signed_def)

lemma tmuls_PInf_not_finite: "list_all (\<lambda>x. \<not> is_fin x) (tmuls t PInf)"
  by (simp add: tmuls_def list_all_iff fmul_PInf_not_finite)

lemma bg_hessian_PInf:
  "bg_hessian PInf pns = Inr hs \<Longrightarrow> list_all degenerate_correction hs"
proof (induction PInf pns arbitrary: hs rule: bg_hessian.induct)
  case 1
  then show ?case by simp
next
  case (2 n pns)
  then show ?case by (auto simp: degenerate_correction_def split: sum.splits)
next
  case (3 p pns)
  then show ?case by simp
next
  case (4 p n pns)
  then show ?case
    by (auto simp: degenerate_correction_def tmuls_PInf_not_finite split: sum.splits)
qed

lemma darts_hessian_PInf:
  "darts_hessian PInf pns = Inr hs \<Longrightarrow> list_all degenerate_correction hs"
proof (induction PInf pns arbitrary: hs rule: darts_hessian.induct)
  case 1
  then show ?case by simp
next
  case (2 p n pns)
  then show ?case
    by (auto simp: degenerate_correction_def tmuls_PInf_not_finite split: sum.splits)
qed simp_all

lemma eps_zero_norm: "fdiv (Fin (1 / 100)) (Fin 0) = PInf"
  by (simp add: inf_signed_def)

lemma bg_zero_norm:
  assumes "bg_norm dw = Inr (Fin 0)" and "bg_compute_hessian E G dw h = (Inr hs, h1)"
  shows "list_all degenerate_correction hs"
proof -
  from assms(2) obtain pns where "bg_hessian PInf pns = Inr hs"
    unfolding bg_compute_hessian_def Let_def
    by (simp only: assms(1) eps_zero_norm sum.case) (auto split: sum.splits prod.splits)
  then show ?thesis by (rule bg_hessian_PInf)
qed

lemma darts_zero_norm:
  assumes "darts_norm dw = Inr (Fin 0)" and "darts_compute_hessian E A dw h = (Inr hs, h1)"
  shows "list_all degenerate_correction hs"
proof -
  from assms(2) obtain pns where "darts_hessian PInf pns = Inr hs"
    unfolding darts_compute_hessian_def Let_def
    by (simp only: assms(1) eps_zero_norm sum.case) (auto split: sum.splits prod.splits)
  then show ?thesis by (rule darts_hessian_PInf)
qed

lemma bg_no_defined: "defined_views dw = [] \<Longrightarrow> bg_compute_hessian E G dw h = (Inl RuntimeError, h)"
  by (simp add: bg_compute_hessian_def bg_norm_def torch_cat_def)

lemma darts_empty: "darts_compute_hessian E A [] h = (Inl RuntimeError, h)"
  by (simp add: darts_compute_hessian_def darts_norm_def torch_cat_def)

lemma darts_undefined:
  "\<not> list_all (\<lambda>d. d \<noteq> None) dw \<Longrightarrow> darts_compute_hessian E A dw h = (Inl AttributeError, h)"
  by (simp add: darts_compute_hessian_def darts_norm_def views_undefined)

text \<open>
  The claim C4 fails for a direction of norm zero: nothing is raised. With
  \<open>dw = [[0, 0]]\<close> both variants return normally, and the correction they return is
  \<open>[NaN, NaN]\<close>.
\<close>

theorem zero_norm_returns_nan:
  "darts_norm [Some [Fin 0, Fin 0]] = Inr (Fin 0)
   \<and> fst (darts_compute_hessian echo_env ex_darts [Some [Fin 0, Fin 0]] zero_store) = Inr [Tensor [NaN, NaN]]
   \<and> bg_norm [Some [Fin 0, Fin 0]] = Inr (Fin 0)
   \<and> fst (bg_compute_hessian echo_env ex_gate [Some [Fin 0, Fin 0]] zero_store) = Inr [Tensor [NaN, NaN]]"
  by (simp add: darts_compute_hessian_def bg_compute_hessian_def darts_norm_def bg_norm_def
      torch_cat_def tnorm_def fsum_def inf_signed_def
      ex_darts_simps ex_gate_simps ex_net_simps echo_env_def zero_store_def
      autograd_grad_def tadd_def tsub_def smul_def tmuls_def tdivs_def fsub_def Let_def)

text \<open>
  C4, as amended. When \<open>dw\<close> has no defined entry, the BinaryGate variant raises
  (\<open>torch.cat\<close> of an empty list) before it changes anything; so does the DARTS variant
  for an empty \<open>dw\<close>, and for a \<open>dw\<close> with an undefined entry (AttributeError). When the
  norm of the defined entries is zero nothing is raised for it: \<open>eps = 0.01 / 0\<close> is
  \<open>+inf\<close>, and every correction that is returned is degenerate (all its entries are
  infinite or NaN, or it is the number 0 of an undefined gradient).
\<close>

theorem degenerate_direction:
  "(defined_views dw = [] \<longrightarrow> bg_compute_hessian E G dw h = (Inl RuntimeError, h))
   \<and> darts_compute_hessian E A [] h = (Inl RuntimeError, h)
   \<and> (\<not> list_all (\<lambda>d. d \<noteq> None) dw \<longrightarrow> darts_compute_hessian E A dw h = (Inl AttributeError, h))
   \<and> fdiv (Fin (1 / 100)) (Fin 0) = PInf
   \<and> (bg_norm dw = Inr (Fin 0) \<and> bg_compute_hessian E G dw h = (Inr hs, h1)
        \<longrightarrow> list_all degenerate_correction hs)
   \<and> (darts_norm dw = Inr (Fin 0) \<and> darts_compute_hessian E A dw h = (Inr hs', h2)
        \<longrightarrow> list_all degenerate_correction hs')"
proof (intro conjI impI)
  show "darts_compute_hessian E A [] h = (Inl RuntimeError, h)" by (rule darts_empty)
  show "fdiv (Fin (1 / 100)) (Fin 0) = PInf" by (rule eps_zero_norm)
next
  assume "defined_views dw = []"
  then show "bg_compute_hessian E G dw h = (Inl RuntimeError, h)" by (rule bg_no_defined)
next
  assume "\<not> list_all (\<lambda>d. d \<noteq> None) dw"
  then show "darts_compute_hessian E A dw h = (Inl AttributeError, h)" by (rule darts_undefined)
next
  assume "bg_norm dw = Inr (Fin 0) \<and> bg_compute_hessian E G dw h = (Inr hs, h1)"
  then show "list_all degenerate_correction hs" by (blast intro: bg_zero_norm)
next
  assume "darts_norm dw = Inr (Fin 0) \<and> darts_compute_hessian E A dw h = (Inr hs', h2)"
  then show "list_all degenerate_correction hs'" by (blast intro: darts_zero_norm)
qed

theorem degenerate_direction_witness:
  "defined_views [None] = []
   \<and> bg_compute_hessian echo_env ex_gate [None] zero_store = (Inl RuntimeError, zero_store)
   \<and> \<not> list_all (\<lambda>d. d \<noteq> None) [None :: tensor option]
   \<and> darts_compute_hessian echo_env ex_darts [None] zero_store = (Inl AttributeError, zero_store)
   \<and> bg_norm [Some [Fin 0, Fin 0]] = Inr (Fin 0)
   \<and> fst (bg_compute_hessian echo_env ex_gate [Some [Fin 0, Fin 0]] zero_store) = Inr [Tensor [NaN, NaN]]
   \<and> list_all degenerate_correction [Tensor [NaN, NaN]]"
proof -
  have n: "bg_norm [Some [Fin 0, Fin 0]] = Inr (Fin 0)"
    by (simp add: bg_norm_def torch_cat_def tnorm_def fsum_def)
  have r: "fst (bg_compute_hessian echo_env ex_gate [Some [Fin 0, Fin 0]] zero_store) = Inr [Tensor [NaN, NaN]]"
    by (simp add: bg_compute_hessian_def n inf_signed_def
      ex_gate_simps ex_net_simps echo_env_def zero_store_def
      autograd_grad_def tadd_def tsub_def smul_def tmuls_def tdivs_def fsub_def Let_def)
  then have "bg_compute_hessian echo_env ex_gate [Some [Fin 0, Fin 0]] zero_store
      = (Inr [Tensor [NaN, NaN]], snd (bg_compute_hessian echo_env ex_gate [Some [Fin 0, Fin 0]] zero_store))"
    by (simp add: prod_eq_iff)
  with n degenerate_direction[of "[Some [Fin 0, Fin 0]]" echo_env ex_gate zero_store ex_darts "[Tensor [NaN, NaN]]"]
  have d: "list_all degenerate_correction [Tensor [NaN, NaN]]" by blast
  from degenerate_direction[of "[None]" echo_env ex_gate zero_store ex_darts]
  have a: "bg_compute_hessian echo_env ex_gate [None] zero_store = (Inl RuntimeError, zero_store)"
    and b: "darts_compute_hessian echo_env ex_darts [None] zero_store = (Inl AttributeError, zero_store)"
    by simp_all
  show ?thesis using n r d a b by simp
qed

section \<open>The perturbation scale\<close>




section \<open>The renormalization factor\<close>

lemma shift_value: "fsub (flog k) (flog k) = (if pos_fin k then Fin 0 else NaN)"
  by (cases k) (simp_all add: fsub_def)

lemma shift_finite_iff: "is_fin (fsub (flog k') (flog k)) \<longleftrightarrow> pos_fin k \<and> pos_fin k'"
  by (cases k; cases k') (simp_all add: fsub_def)

lemma fadd_zero_right: "fadd x (Fin 0) = x"
  by (cases x) simp_all

lemma fadd_NaN_right: "fadd x NaN = NaN"
  by (cases x) simp_all

lemma shift_ops_zero: "shift_ops (Fin 0) s_op t = t"
  unfolding shift_ops_def by (induction s_op) (simp_all add: fadd_zero_right)

lemma shift_ops_prefix:
  "n \<le> length t \<Longrightarrow>
   fold (\<lambda>i t. t[i := fadd (t ! i) c]) [0..<n] t = map (\<lambda>x. fadd x c) (take n t) @ drop n t"
proof (induction n)
  case 0
  show ?case by simp
next
  case (Suc n)
  then have n: "n < length t" by simp
  let ?A = "map (\<lambda>x. fadd x c) (take n t)"
  have len: "length ?A = n" using n by simp
  have dr: "drop n t = t ! n # drop (Suc n) t" using n by (simp add: Cons_nth_drop_Suc)
  have "fold (\<lambda>i t. t[i := fadd (t ! i) c]) [0..<Suc n] t
      = (?A @ drop n t)[n := fadd ((?A @ drop n t) ! n) c]"
    using Suc.IH n by simp
  also have "\<dots> = ?A @ (fadd (t ! n) c # drop (Suc n) t)"
    using len by (simp add: dr list_update_append nth_append)
  also have "\<dots> = map (\<lambda>x. fadd x c) (take (Suc n) t) @ drop (Suc n) t"
    using n by (simp add: take_Suc_conv_app_nth)
  finally show ?case .
qed

lemma shift_ops_whole: "shift_ops c [0..<length t] t = map (\<lambda>x. fadd x c) t"
  unfolding shift_ops_def using shift_ops_prefix[of "length t" t c] by simp

lemma shift_ops_NaN: "shift_ops NaN [0..<length t] t = replicate (length t) NaN"
  by (simp add: shift_ops_whole fadd_NaN_right map_replicate_const)

lemma index_select_whole: "index_select t [0..<length t] = Inr t"
  by (simp add: index_select_def list_all_iff map_nth)

lemma renorm_k_whole:
  assumes "s_op = [0..<length t]" and "fsum (map fexp t) = Fin S" and "S \<noteq> 0"
  shows "renorm_k t s_op = Inr (Fin 0)"
  using assms(3) by (simp add: renorm_k_def assms(1) index_select_whole assms(2) fsub_def)

lemma renorm_factors_cong:
  "list_all (\<lambda>(p, s_op). h' p = h p) pms \<Longrightarrow> renorm_factors pms h' = renorm_factors pms h"
  by (induction pms) (auto split: sum.splits)

lemma renorm_shift_round_trip:
  "renorm_factors pms h = Inr ks \<Longrightarrow> list_all pos_fin ks \<Longrightarrow>
   renorm_shift rg (zip ks pms) h
     = (if list_ex (\<lambda>(p, s_op). s_op \<noteq> [] \<and> rg p) pms then (Inl RuntimeError, h) else (Inr (), h))"
proof (induction pms arbitrary: ks)
  case Nil
  show ?case by simp
next
  case (Cons pm pms)
  obtain p s_op where pm: "pm = (p, s_op)" by (cases pm)
  from Cons.prems(1) obtain k ks' where k: "renorm_k (h p) s_op = Inr k"
    and ks': "renorm_factors pms h = Inr ks'" and ks: "ks = k # ks'"
    by (auto simp: pm split: sum.splits)
  from Cons.prems(2) have pos: "pos_fin k" and rest: "list_all pos_fin ks'" by (simp_all add: ks)
  have same: "h(p := shift_ops (fsub (flog k) (flog k)) s_op (h p)) = h"
    by (simp add: shift_value pos shift_ops_zero)
  show ?case
  proof (cases "s_op \<noteq> [] \<and> rg p")
    case True
    then show ?thesis by (simp add: ks pm k)
  next
    case False
    then have "renorm_shift rg (zip ks (pm # pms)) h = renorm_shift rg (zip ks' pms) h"
      by (simp only: ks pm zip_Cons_Cons renorm_shift.simps k sum.case same if_False)
    with Cons.IH[OF ks' rest] False show ?thesis by (auto simp: pm)
  qed
qed

lemma bg_step_renorm:
  assumes "renorm G"
    and "(if \<not> unrolled G then bg_first_order E G (zero_grad E s) else bg_unrolled E G xi (zero_grad E s))
           = (Inr u, s1)"
  shows "bg_step E G pms xi s =
     (case renorm_factors pms (store s1) of
        Inl e \<Rightarrow> (Inl e, s1)
      | Inr ks \<Rightarrow>
          (case renorm_shift (requires_grad E) (zip ks pms) (store (optim_step E s1)) of
             (r, h) \<Rightarrow> (r, (optim_step E s1)\<lparr>store := h\<rparr>)))"
  unfolding bg_step_def assms(2) Let_def using assms(1) by simp

text \<open>
  The claim C9 fails when the factor is not a positive number, as it is when the sampled
  subset covers every operation. For the logits \<open>[0, 0]\<close> and \<open>s_op = [0, 1]\<close> the factor
  is \<open>2 / 2 - 1 = 0\<close> before and after, and the shift is
  \<open>log 0 - log 0 = -inf - (-inf) = NaN\<close>, not zero: on a parameter that does not require
  grad both logits become NaN, and on one that requires grad the write raises.
\<close>

theorem full_subset_shifts_by_nan:
  "renorm_factors [(1, [0, 1])] zero_store = Inr [Fin 0]
   \<and> fsub (flog (Fin 0)) (flog (Fin 0)) = NaN
   \<and> renorm_shift (requires_grad detached_env) (zip [Fin 0] [(1, [0, 1])]) zero_store
        = (Inr (), zero_store(1 := [NaN, NaN]))
   \<and> renorm_shift (requires_grad echo_env) (zip [Fin 0] [(1, [0, 1])]) zero_store
        = (Inl RuntimeError, zero_store)
   \<and> zero_store 1 = [Fin 0, Fin 0]"
  by (simp add: renorm_k_def index_select_def fsum_def fsub_def shift_ops_def zero_store_def
      detached_env_def echo_env_def)

text \<open>
  C9, as amended. The factor \<open>k\<close> is a function of the logits and the sampled subset, and
  the shift between two equal factors, \<open>log k - log k\<close>, is exactly zero when \<open>k\<close> is a
  strictly positive finite number and NaN for every other value of \<open>k\<close> (zero, negative,
  infinite or NaN). When the first loop has returned factors that are all strictly
  positive and finite and the optimizer step changes none of the logits, the second loop
  finds the same factors and leaves every logit unchanged, provided torch permits the
  write: at the first decision point with a non-empty subset whose parameter requires grad
  it raises a RuntimeError, again with every logit unchanged. This is what \<open>step\<close> then
  returns.
\<close>

theorem renorm_round_trip:
  "fsub (flog k) (flog k) = (if pos_fin k then Fin 0 else NaN)
   \<and> (renorm_factors pms h = Inr ks \<and> list_all pos_fin ks \<longrightarrow>
        renorm_shift rg (zip ks pms) h
          = (if list_ex (\<lambda>(p, s_op). s_op \<noteq> [] \<and> rg p) pms then (Inl RuntimeError, h) else (Inr (), h)))
   \<and> (renorm G
       \<and> (if \<not> unrolled G then bg_first_order E G (zero_grad E s) else bg_unrolled E G xi (zero_grad E s))
           = (Inr u, s1)
       \<and> list_all (\<lambda>(p, s_op). store (optim_step E s1) p = store s1 p) pms
       \<and> renorm_factors pms (store s1) = Inr ks \<and> list_all pos_fin ks \<longrightarrow>
        bg_step E G pms xi s
          = (if list_ex (\<lambda>(p, s_op). s_op \<noteq> [] \<and> requires_grad E p) pms
             then (Inl RuntimeError, optim_step E s1) else (Inr (), optim_step E s1)))"
proof (intro conjI impI)
  show "fsub (flog k) (flog k) = (if pos_fin k then Fin 0 else NaN)" by (rule shift_value)
next
  assume "renorm_factors pms h = Inr ks \<and> list_all pos_fin ks"
  then show "renorm_shift rg (zip ks pms) h
          = (if list_ex (\<lambda>(p, s_op). s_op \<noteq> [] \<and> rg p) pms then (Inl RuntimeError, h) else (Inr (), h))"
    by (blast intro: renorm_shift_round_trip)
next
  assume a: "renorm G
       \<and> (if \<not> unrolled G then bg_first_order E G (zero_grad E s) else bg_unrolled E G xi (zero_grad E s))
           = (Inr u, s1)
       \<and> list_all (\<lambda>(p, s_op). store (optim_step E s1) p = store s1 p) pms
       \<and> renorm_factors pms (store s1) = Inr ks \<and> list_all pos_fin ks"
  then have ren: "renorm G"
    and part: "(if \<not> unrolled G then bg_first_order E G (zero_grad E s)
                else bg_unrolled E G xi (zero_grad E s)) = (Inr u, s1)"
    and same: "list_all (\<lambda>(p, s_op). store (optim_step E s1) p = store s1 p) pms"
    and ks: "renorm_factors pms (store s1) = Inr ks" and pos: "list_all pos_fin ks"
    by blast+
  have ks2: "renorm_factors pms (store (optim_step E s1)) = Inr ks"
    using renorm_factors_cong[OF same] ks by simp
  note sh = renorm_shift_round_trip[OF ks2 pos, of "requires_grad E"]
  show "bg_step E G pms xi s
          = (if list_ex (\<lambda>(p, s_op). s_op \<noteq> [] \<and> requires_grad E p) pms
             then (Inl RuntimeError, optim_step E s1) else (Inr (), optim_step E s1))"
    unfolding bg_step_renorm[OF ren part] ks sum.case sh by simp
qed

text \<open>
  C10. The shift \<open>log k' - log k\<close> is finite exactly when both factors are strictly
  positive finite numbers. When the sampled subset is the whole tensor of logits, whose
  exponentials have a finite non-zero sum, the factor is \<open>0\<close> and \<open>log 0\<close> is \<open>-inf\<close>: the
  arithmetic is well-defined only for a subset that leaves an operation out. \<open>step\<close> has
  no guard for this case: with such a subset before and after the optimizer step, the
  shift is NaN and the second loop writes NaN into every logit of the decision point and
  returns; on a parameter that requires grad the write raises a RuntimeError.
\<close>

theorem renorm_needs_strict_subset:
  "(is_fin (fsub (flog k') (flog k)) \<longleftrightarrow> pos_fin k \<and> pos_fin k')
   \<and> (s_op = [0..<length t] \<and> fsum (map fexp t) = Fin S \<and> S \<noteq> 0 \<longrightarrow>
        renorm_k t s_op = Inr (Fin 0) \<and> \<not> pos_fin (Fin 0) \<and> flog (Fin 0) = NInf)
   \<and> (renorm G
       \<and> (if \<not> unrolled G then bg_first_order E G (zero_grad E s) else bg_unrolled E G xi (zero_grad E s))
           = (Inr u, s1)
       \<and> ops = [0..<length (store s1 p)] \<and> ops \<noteq> []
       \<and> fsum (map fexp (store s1 p)) = Fin S1 \<and> S1 \<noteq> 0
       \<and> length (store (optim_step E s1) p) = length (store s1 p)
       \<and> fsum (map fexp (store (optim_step E s1) p)) = Fin S2 \<and> S2 \<noteq> 0 \<longrightarrow>
        bg_step E G [(p, ops)] xi s
          = (if requires_grad E p then (Inl RuntimeError, optim_step E s1)
             else (Inr (), (optim_step E s1)
                    \<lparr>store := (store (optim_step E s1))(p := replicate (length ops) NaN)\<rparr>)))"
proof (intro conjI impI)
  show "is_fin (fsub (flog k') (flog k)) \<longleftrightarrow> pos_fin k \<and> pos_fin k'" by (rule shift_finite_iff)
next
  assume "s_op = [0..<length t] \<and> fsum (map fexp t) = Fin S \<and> S \<noteq> 0"
  then show "renorm_k t s_op = Inr (Fin 0)" by (blast intro: renorm_k_whole)
next
  show "\<not> pos_fin (Fin 0)" by simp
next
  show "flog (Fin 0) = NInf" by simp
next
  assume a: "renorm G
       \<and> (if \<not> unrolled G then bg_first_order E G (zero_grad E s) else bg_unrolled E G xi (zero_grad E s))
           = (Inr u, s1)
       \<and> ops = [0..<length (store s1 p)] \<and> ops \<noteq> []
       \<and> fsum (map fexp (store s1 p)) = Fin S1 \<and> S1 \<noteq> 0
       \<and> length (store (optim_step E s1) p) = length (store s1 p)
       \<and> fsum (map fexp (store (optim_step E s1) p)) = Fin S2 \<and> S2 \<noteq> 0"
  let ?s2 = "optim_step E s1"
  from a have ren: "renorm G"
    and part: "(if \<not> unrolled G then bg_first_order E G (zero_grad E s)
                else bg_unrolled E G xi (zero_grad E s)) = (Inr u, s1)"
    and ops: "ops = [0..<length (store s1 p)]" and ne: "ops \<noteq> []"
    and s1: "fsum (map fexp (store s1 p)) = Fin S1" "S1 \<noteq> 0"
    and len: "length (store ?s2 p) = length (store s1 p)"
    and s2: "fsum (map fexp (store ?s2 p)) = Fin S2" "S2 \<noteq> 0"
    by blast+
  have ops2: "ops = [0..<length (store ?s2 p)]" using ops len by simp
  have k1: "renorm_k (store s1 p) ops = Inr (Fin 0)" using ops s1 by (rule renorm_k_whole)
  have k2: "renorm_k (store ?s2 p) ops = Inr (Fin 0)" using ops2 s2 by (rule renorm_k_whole)
  have fac: "renorm_factors [(p, ops)] (store s1) = Inr [Fin 0]" by (simp add: k1)
  have nan: "fsub (flog (Fin 0)) (flog (Fin 0)) = NaN" by (simp add: fsub_def)
  have wr: "shift_ops NaN ops (store ?s2 p) = replicate (length ops) NaN"
    unfolding ops2 by (simp add: shift_ops_NaN)
  have sh: "renorm_shift (requires_grad E) (zip [Fin 0] [(p, ops)]) (store ?s2)
      = (if requires_grad E p then (Inl RuntimeError, store ?s2)
         else (Inr (), (store ?s2)(p := replicate (length ops) NaN)))"
    using ne by (simp add: k2 nan wr del: flog.simps)
  show "bg_step E G [(p, ops)] xi s
          = (if requires_grad E p then (Inl RuntimeError, optim_step E s1)
             else (Inr (), (optim_step E s1)
                    \<lparr>store := (store (optim_step E s1))(p := replicate (length ops) NaN)\<rparr>))"
    unfolding bg_step_renorm[OF ren part] fac sum.case sh by simp
qed

lemma first_order_gate_simps:
  "net first_order_gate = ex_net" "\<not> unrolled first_order_gate" "renorm first_order_gate"
  by (simp_all add: first_order_gate_def bg_init_def)

lemma first_order_part:
  "bg_first_order detached_env first_order_gate (zero_grad detached_env (ex_state three_logits))
     = (Inr (), snd (bg_first_order detached_env first_order_gate (zero_grad detached_env (ex_state three_logits))))"
  "bg_first_order echo_env first_order_gate (zero_grad echo_env (ex_state three_logits))
     = (Inr (), snd (bg_first_order echo_env first_order_gate (zero_grad echo_env (ex_state three_logits))))"
  by (simp_all add: bg_first_order_def detached_env_def echo_env_def)

lemma first_order_store:
  "store (snd (bg_first_order detached_env first_order_gate (zero_grad detached_env (ex_state three_logits))))
     = three_logits"
  "store (snd (bg_first_order echo_env first_order_gate (zero_grad echo_env (ex_state three_logits))))
     = three_logits"
  "store (optim_step detached_env
       (snd (bg_first_order detached_env first_order_gate (zero_grad detached_env (ex_state three_logits)))))
     = three_logits"
  "store (optim_step echo_env
       (snd (bg_first_order echo_env first_order_gate (zero_grad echo_env (ex_state three_logits)))))
     = three_logits"
  by (simp_all add: bg_first_order_def alpha_backward_def zero_grad_def optim_step_def
      detached_env_def echo_env_def ex_state_def first_order_gate_simps ex_net_simps three_logits_def)

lemma three_logits_factors:
  "renorm_factors [(1, [0, 1])] three_logits = Inr [Fin (1 / 2)]"
  "fsum (map fexp (three_logits 1)) = Fin 3"
  by (simp_all add: renorm_k_def index_select_def fsum_def fsub_def three_logits_def)

theorem renorm_round_trip_witness:
  "renorm first_order_gate
   \<and> renorm_factors [(1, [0, 1])] three_logits = Inr [Fin (1 / 2)]
   \<and> list_all pos_fin [Fin (1 / 2)]
   \<and> fsub (flog (Fin (1 / 2))) (flog (Fin (1 / 2))) = Fin 0
   \<and> renorm_shift (requires_grad detached_env) (zip [Fin (1 / 2)] [(1, [0, 1])]) three_logits
        = (Inr (), three_logits)
   \<and> bg_step detached_env first_order_gate [(1, [0, 1])] (Fin (1 / 10)) (ex_state three_logits)
        = (Inr (), optim_step detached_env
             (snd (bg_first_order detached_env first_order_gate (zero_grad detached_env (ex_state three_logits)))))
   \<and> bg_step echo_env first_order_gate [(1, [0, 1])] (Fin (1 / 10)) (ex_state three_logits)
        = (Inl RuntimeError, optim_step echo_env
             (snd (bg_first_order echo_env first_order_gate (zero_grad echo_env (ex_state three_logits)))))
   \<and> store (optim_step detached_env
         (snd (bg_first_order detached_env first_order_gate (zero_grad detached_env (ex_state three_logits))))) 1
        = [Fin 0, Fin 0, Fin 0]"
proof -
  let ?sd = "snd (bg_first_order detached_env first_order_gate (zero_grad detached_env (ex_state three_logits)))"
  let ?se = "snd (bg_first_order echo_env first_order_gate (zero_grad echo_env (ex_state three_logits)))"
  let ?pms = "[(1::nat, [0::nat, 1])]"
  have ren: "renorm first_order_gate" by (rule first_order_gate_simps)
  have pd: "(if \<not> unrolled first_order_gate
             then bg_first_order detached_env first_order_gate (zero_grad detached_env (ex_state three_logits))
             else bg_unrolled detached_env first_order_gate (Fin (1 / 10)) (zero_grad detached_env (ex_state three_logits)))
            = (Inr (), ?sd)"
    using first_order_part(1) by (simp add: first_order_gate_simps)
  have pe: "(if \<not> unrolled first_order_gate
             then bg_first_order echo_env first_order_gate (zero_grad echo_env (ex_state three_logits))
             else bg_unrolled echo_env first_order_gate (Fin (1 / 10)) (zero_grad echo_env (ex_state three_logits)))
            = (Inr (), ?se)"
    using first_order_part(2) by (simp add: first_order_gate_simps)
  have same_d: "list_all (\<lambda>(p, s_op). store (optim_step detached_env ?sd) p = store ?sd p) ?pms"
    and same_e: "list_all (\<lambda>(p, s_op). store (optim_step echo_env ?se) p = store ?se p) ?pms"
    by (simp_all add: first_order_store)
  have fd: "renorm_factors ?pms (store ?sd) = Inr [Fin (1 / 2)]"
    and fe: "renorm_factors ?pms (store ?se) = Inr [Fin (1 / 2)]"
    by (simp_all only: first_order_store three_logits_factors)
  have pos: "list_all pos_fin [Fin (1 / 2)]" by simp
  have rd: "\<not> list_ex (\<lambda>(p, s_op). s_op \<noteq> [] \<and> requires_grad detached_env p) ?pms"
    and re: "list_ex (\<lambda>(p, s_op). s_op \<noteq> [] \<and> requires_grad echo_env p) ?pms"
    by (simp_all add: detached_env_def echo_env_def)
  note td = renorm_round_trip[where k = "Fin (1 / 2)" and pms = ?pms and h = three_logits
      and ks = "[Fin (1 / 2)]" and rg = "requires_grad detached_env" and G = first_order_gate
      and E = detached_env and s = "ex_state three_logits" and xi = "Fin (1 / 10)" and u = "()" and ?s1.0 = ?sd]
  note te = renorm_round_trip[where k = "Fin (1 / 2)" and pms = ?pms and h = three_logits
      and ks = "[Fin (1 / 2)]" and rg = "requires_grad echo_env" and G = first_order_gate
      and E = echo_env and s = "ex_state three_logits" and xi = "Fin (1 / 10)" and u = "()" and ?s1.0 = ?se]
  from td have a: "fsub (flog (Fin (1 / 2))) (flog (Fin (1 / 2))) = Fin 0" by simp
  from td three_logits_factors(1) pos rd
  have b: "renorm_shift (requires_grad detached_env) (zip [Fin (1 / 2)] ?pms) three_logits = (Inr (), three_logits)"
    by presburger
  from td ren pd same_d fd pos rd
  have c: "bg_step detached_env first_order_gate ?pms (Fin (1 / 10)) (ex_state three_logits)
        = (Inr (), optim_step detached_env ?sd)"
    by presburger
  from te ren pe same_e fe pos re
  have d: "bg_step echo_env first_order_gate ?pms (Fin (1 / 10)) (ex_state three_logits)
        = (Inl RuntimeError, optim_step echo_env ?se)"
    by presburger
  have e: "store (optim_step detached_env ?sd) 1 = [Fin 0, Fin 0, Fin 0]"
    by (simp only: first_order_store) (simp add: three_logits_def)
  show ?thesis using ren three_logits_factors(1) pos a b c d e by (intro conjI)
qed

theorem renorm_needs_strict_subset_witness:
  "renorm first_order_gate
   \<and> fsum (map fexp (three_logits 1)) = Fin 3
   \<and> renorm_k (three_logits 1) [0, 1, 2] = Inr (Fin 0)
   \<and> \<not> is_fin (fsub (flog (Fin 0)) (flog (Fin 0)))
   \<and> bg_step detached_env first_order_gate [(1, [0, 1, 2])] (Fin (1 / 10)) (ex_state three_logits)
        = (Inr (), (optim_step detached_env
             (snd (bg_first_order detached_env first_order_gate (zero_grad detached_env (ex_state three_logits)))))
             \<lparr>store := three_logits(1 := [NaN, NaN, NaN])\<rparr>)
   \<and> bg_step echo_env first_order_gate [(1, [0, 1, 2])] (Fin (1 / 10)) (ex_state three_logits)
        = (Inl RuntimeError, optim_step echo_env
             (snd (bg_first_order echo_env first_order_gate (zero_grad echo_env (ex_state three_logits)))))"
proof -
  let ?sd = "snd (bg_first_order detached_env first_order_gate (zero_grad detached_env (ex_state three_logits)))"
  let ?se = "snd (bg_first_order echo_env first_order_gate (zero_grad echo_env (ex_state three_logits)))"
  have ren: "renorm first_order_gate" by (rule first_order_gate_simps)
  have pd: "(if \<not> unrolled first_order_gate
             then bg_first_order detached_env first_order_gate (zero_grad detached_env (ex_state three_logits))
             else bg_unrolled detached_env first_order_gate (Fin (1 / 10)) (zero_grad detached_env (ex_state three_logits)))
            = (Inr (), ?sd)"
    using first_order_part(1) by (simp add: first_order_gate_simps)
  have pe: "(if \<not> unrolled first_order_gate
             then bg_first_order echo_env first_order_gate (zero_grad echo_env (ex_state three_logits))
             else bg_unrolled echo_env first_order_gate (Fin (1 / 10)) (zero_grad echo_env (ex_state three_logits)))
            = (Inr (), ?se)"
    using first_order_part(2) by (simp add: first_order_gate_simps)
  have l: "length (three_logits 1) = 3" by (simp add: three_logits_def)
  have ops: "[0, 1, 2] = [0..<length (three_logits 1)]"
    unfolding l by (simp add: upt_rec)
  have ne: "[0::nat, 1, 2] \<noteq> []" by simp
  have sm: "fsum (map fexp (three_logits 1)) = Fin 3" "(3::real) \<noteq> 0"
    by (rule three_logits_factors(2)) simp
  have rd: "\<not> requires_grad detached_env 1" and re: "requires_grad echo_env 1"
    by (simp_all add: detached_env_def echo_env_def)
  note td = renorm_needs_strict_subset[where k = "Fin 0" and k' = "Fin 0" and s_op = "[0, 1, 2]"
      and t = "three_logits 1" and S = 3 and G = first_order_gate and E = detached_env
      and s = "ex_state three_logits" and xi = "Fin (1 / 10)" and u = "()" and ?s1.0 = ?sd and p = 1
      and ops = "[0, 1, 2]" and ?S1.0 = 3 and ?S2.0 = 3, unfolded first_order_store]
  note te = renorm_needs_strict_subset[where k = "Fin 0" and k' = "Fin 0" and s_op = "[0, 1, 2]"
      and t = "three_logits 1" and S = 3 and G = first_order_gate and E = echo_env
      and s = "ex_state three_logits" and xi = "Fin (1 / 10)" and u = "()" and ?s1.0 = ?se and p = 1
      and ops = "[0, 1, 2]" and ?S1.0 = 3 and ?S2.0 = 3, unfolded first_order_store]
  from td ops sm have a: "renorm_k (three_logits 1) [0, 1, 2] = Inr (Fin 0)" by blast
  from td have b: "\<not> is_fin (fsub (flog (Fin 0)) (flog (Fin 0)))" by simp
  have rep: "replicate (length [0::nat, 1, 2]) NaN = [NaN, NaN, NaN]" by (simp add: numeral_3_eq_3)
  from td ren pd ops ne sm rd
  have c: "bg_step detached_env first_order_gate [(1, [0, 1, 2])] (Fin (1 / 10)) (ex_state three_logits)
        = (Inr (), (optim_step detached_env ?sd)\<lparr>store := three_logits(1 := replicate (length [0::nat, 1, 2]) NaN)\<rparr>)"
    by presburger
  from te ren pe ops ne sm re
  have d: "bg_step echo_env first_order_gate [(1, [0, 1, 2])] (Fin (1 / 10)) (ex_state three_logits)
        = (Inl RuntimeError, optim_step echo_env ?se)"
    by presburger
  show ?thesis using ren sm(1) a b c[unfolded rep] d by (intro conjI)
qed

section \<open>The frame of the virtual step\<close>

lemma changes_only_refl: "changes_only vs s s"
  by (simp add: changes_only_def)

lemma changes_only_trans:
  "changes_only vs s s1 \<Longrightarrow> changes_only vs s1 s2 \<Longrightarrow> changes_only vs s s2"
  by (simp add: changes_only_def)

lemma changes_only_mono:
  "changes_only vs s s' \<Longrightarrow> set vs \<subseteq> set vs' \<Longrightarrow> changes_only vs' s s'"
  by (auto simp: changes_only_def)

lemma state_entry_changes: "changes_only vs s (s\<lparr>w_state := state_entry (w_state s) w\<rparr>)"
  by (auto simp: changes_only_def state_entry_def momentum_buffer_def split: option.splits)

lemma copy_into_changes:
  "copy_into vw t (store s) = Inr h \<Longrightarrow> vw \<in> set vs \<Longrightarrow> changes_only vs s (s\<lparr>store := h\<rparr>)"
  by (auto simp: changes_only_def copy_into_def split: if_splits)

lemma zip3_middle: "set (map (fst \<circ> snd) (zip ws (zip vws gs))) \<subseteq> set vws"
proof
  fix v
  assume "v \<in> set (map (fst \<circ> snd) (zip ws (zip vws gs)))"
  then obtain w g where "(w, v, g) \<in> set (zip ws (zip vws gs))" by auto
  then have "(v, g) \<in> set (zip vws gs)" by (rule set_zip_rightD)
  then show "v \<in> set vws" by (rule set_zip_leftD)
qed

lemma virtual_update_changes:
  "virtual_update xi mu wd ws s = (r, s') \<Longrightarrow> set (map (fst \<circ> snd) ws) \<subseteq> set vs \<Longrightarrow>
   changes_only vs s s'"
proof (induction ws arbitrary: s)
  case Nil
  then show ?case by (simp add: changes_only_refl)
next
  case (Cons x ws)
  obtain w vw g where x: "x = (w, vw, g)" by (cases x)
  let ?s1 = "s\<lparr>w_state := state_entry (w_state s) w\<rparr>"
  have c1: "changes_only vs s ?s1" by (rule state_entry_changes)
  from Cons.prems(2) have vw: "vw \<in> set vs" and sub: "set (map (fst \<circ> snd) ws) \<subseteq> set vs"
    by (simp_all add: x)
  show ?case
  proof (cases "virtual_weight xi wd (momentum_term (state_entry (w_state s) w) w mu) (store s w) g")
    case (Inl e)
    with Cons.prems(1) have "s' = ?s1" by (simp add: x Let_def)
    then show ?thesis using c1 by simp
  next
    case (Inr t)
    show ?thesis
    proof (cases "copy_into vw t (store s)")
      case (Inl e)
      with Cons.prems(1) Inr have "s' = ?s1" by (simp add: x Let_def)
      then show ?thesis using c1 by simp
    next
      case h: (Inr h)
      with Cons.prems(1) Inr have run: "virtual_update xi mu wd ws (?s1\<lparr>store := h\<rparr>) = (r, s')"
        by (simp add: x Let_def)
      have "copy_into vw t (store ?s1) = Inr h" using h by simp
      then have c2: "changes_only vs ?s1 (?s1\<lparr>store := h\<rparr>)" using vw by (rule copy_into_changes)
      from Cons.IH[OF run sub] have c3: "changes_only vs (?s1\<lparr>store := h\<rparr>) s'" .
      from c1 c2 c3 show ?thesis by (blast intro: changes_only_trans)
    qed
  qed
qed

lemma sync_alphas_frame:
  "sync_alphas as h = (r, h') \<Longrightarrow> a \<notin> set (map snd as) \<Longrightarrow> h' a = h a"
proof (induction as arbitrary: h)
  case Nil
  then show ?case by simp
next
  case (Cons x as)
  obtain b vb where x: "x = (b, vb)" by (cases x)
  show ?case
  proof (cases "copy_into vb (h b) h")
    case (Inl e)
    with Cons.prems show ?thesis by (simp add: x)
  next
    case (Inr h1)
    with Cons.prems have "sync_alphas as h1 = (r, h')" "a \<notin> set (map snd as)" "a \<noteq> vb"
      by (auto simp: x)
    with Cons.IH[of h1] have "h' a = h1 a" by simp
    moreover from Inr \<open>a \<noteq> vb\<close> have "h1 a = h a"
      by (auto simp: copy_into_def split: if_splits)
    ultimately show ?thesis by simp
  qed
qed

lemma sync_alphas_changes:
  "sync_alphas as (store s) = (r, h') \<Longrightarrow> set (map snd as) \<subseteq> set vs \<Longrightarrow>
   changes_only vs s (s\<lparr>store := h'\<rparr>)"
  unfolding changes_only_def using sync_alphas_frame by fastforce

lemma darts_virtual_step_changes:
  assumes "darts_virtual_step E A xi s = (r, s')"
  shows "changes_only (weights (v_net A) @ alphas (v_net A)) s s'"
proof (cases "autograd_grad False (trn_backward E (store s)) (weights (net A))")
  case (Inl e)
  with assms have "s' = s" by (simp add: darts_virtual_step_def)
  then show ?thesis by (simp add: changes_only_refl)
next
  case (Inr gradients)
  let ?ws = "zip (weights (net A)) (zip (weights (v_net A)) gradients)"
  obtain r1 s1 where vu: "virtual_update xi (w_momentum A) (w_weight_decay A) ?ws s = (r1, s1)"
    by (cases "virtual_update xi (w_momentum A) (w_weight_decay A) ?ws s")
  have sub: "set (map (fst \<circ> snd) ?ws) \<subseteq> set (weights (v_net A) @ alphas (v_net A))"
    using zip3_middle[of "weights (net A)" "weights (v_net A)" gradients] by auto
  from virtual_update_changes[OF vu sub]
  have c1: "changes_only (weights (v_net A) @ alphas (v_net A)) s s1" .
  show ?thesis
  proof (cases r1)
    case (Inl e)
    with assms Inr vu have "s' = s1" by (simp add: darts_virtual_step_def)
    then show ?thesis using c1 by simp
  next
    case r1: (Inr u)
    obtain r2 h where sy: "sync_alphas (zip (alphas (net A)) (alphas (v_net A))) (store s1) = (r2, h)"
      by (cases "sync_alphas (zip (alphas (net A)) (alphas (v_net A))) (store s1)")
    with assms Inr vu r1 have s': "s' = s1\<lparr>store := h\<rparr>" by (simp add: darts_virtual_step_def)
    have sub2: "set (map snd (zip (alphas (net A)) (alphas (v_net A))))
        \<subseteq> set (weights (v_net A) @ alphas (v_net A))"
      by (auto dest!: set_zip_rightD)
    from sync_alphas_changes[OF sy sub2] c1 show ?thesis
      unfolding s' by (blast intro: changes_only_trans)
  qed
qed

lemma bg_virtual_step_changes:
  assumes "bg_virtual_step E G xi s = (r, s')"
  shows "changes_only (weights_check_grad (v_net G)) s s'"
proof (cases "autograd_grad False (trn_backward E (store s)) (weights_check_grad (net G))")
  case (Inl e)
  with assms have "s' = s" by (simp add: bg_virtual_step_def)
  then show ?thesis by (simp add: changes_only_refl)
next
  case (Inr gradients)
  show ?thesis
  proof (cases "unrolled G")
    case False
    with assms Inr have "s' = s" by (simp add: bg_virtual_step_def)
    then show ?thesis by (simp add: changes_only_refl)
  next
    case True
    let ?ws = "zip (weights_check_grad (net G)) (zip (weights_check_grad (v_net G)) gradients)"
    from assms Inr True
    have vu: "virtual_update xi (w_momentum G) (w_weight_decay G) ?ws s = (r, s')"
      by (simp add: bg_virtual_step_def)
    have sub: "set (map (fst \<circ> snd) ?ws) \<subseteq> set (weights_check_grad (v_net G))"
      by (rule zip3_middle)
    from virtual_update_changes[OF vu sub] show ?thesis .
  qed
qed

section \<open>The virtual weights\<close>

lemma momentum_buffer_state_entry: "momentum_buffer (state_entry os w) a = momentum_buffer os a"
  by (auto simp: momentum_buffer_def state_entry_def split: option.splits)

lemma momentum_term_state_entry: "momentum_term (state_entry os w) a mu = momentum_term os a mu"
  by (simp add: momentum_term_def momentum_buffer_state_entry)

lemma momentum_term_cong:
  "momentum_buffer os' a = momentum_buffer os a \<Longrightarrow> momentum_term os' a mu = momentum_term os a mu"
  by (simp add: momentum_term_def)

lemma example_darts:
  "map (store (snd (darts_virtual_step half_env two_darts (Fin (1 / 10)) two_state))) (weights (v_net two_darts))
     = [[Fin (95 / 100)], [Fin (195 / 100)]]
   \<and> fst (darts_virtual_step half_env two_darts (Fin (1 / 10)) two_state) = Inr ()"
  by (simp add: darts_virtual_step_def two_darts_simps two_net_simps two_state_simps deepcopy_network_def
      half_env_def echo_env_def autograd_grad_def Let_def state_entry_def momentum_term_def momentum_buffer_def
      virtual_weight_def copy_into_def tadd_def tsub_def smul_def sadd_def fsub_def two_store_cells)

lemma example_bg:
  "map (store (snd (bg_virtual_step half_env two_gate (Fin (1 / 10)) two_state))) (weights (v_net two_gate))
     = [[Fin (95 / 100)], [Fin (195 / 100)]]
   \<and> fst (bg_virtual_step half_env two_gate (Fin (1 / 10)) two_state) = Inr ()"
  by (simp add: bg_virtual_step_def two_gate_simps two_net_simps two_state_simps deepcopy_network_def
      half_env_def echo_env_def autograd_grad_def Let_def state_entry_def momentum_term_def momentum_buffer_def
      virtual_weight_def copy_into_def tadd_def tsub_def smul_def sadd_def fsub_def two_store_cells)

section \<open>What the virtual step leaves unchanged\<close>

lemma unchanged_below:
  assumes "changes_only vs s s'" and "list_all (\<lambda>a. off \<le> a) vs" and "list_all (\<lambda>a. a < off) (as :: addr list)"
  shows "map (store s') as = map (store s) as"
proof -
  have "store s' a = store s a" if "a \<in> set as" for a
  proof -
    from that assms(3) have "a < off" by (simp add: list_all_iff)
    with assms(2) have "a \<notin> set vs" by (auto simp: list_all_iff)
    with assms(1) show ?thesis by (simp add: changes_only_def)
  qed
  then show ?thesis by simp
qed

lemma two_below: "list_all (\<lambda>a. a < 3) (weights two_net @ alphas two_net)"
  by (simp add: two_net_simps)

lemma pair_of_fst: "fst p = a \<Longrightarrow> p = (a, snd p)"
  by (cases p) simp

text \<open>
  C7. Whatever a call to \<open>virtual_step\<close> returns or raises, in either variant, for an
  architect as its constructor builds it: the store changes only at the virtual model's
  weight tensors (and, in the DARTS variant, at the virtual model's alpha tensors), no
  gradient field changes, every entry of the optimizer state that exists stays as it is,
  and the momentum buffer of every parameter is the same; so every real-model weight and
  alpha tensor keeps its value. Reading \<open>w_optim.state[w]\<close> can add an empty entry for a
  weight that had none; it holds no buffer.
\<close>

theorem virtual_step_frame:
  "(A = fst (darts_init n mu wd off s0) \<and> list_all (\<lambda>a. a < off) (weights n @ alphas n)
      \<and> darts_virtual_step E A xi s = (r, s')
    \<longrightarrow> changes_only (weights (v_net A) @ alphas (v_net A)) s s'
        \<and> map (store s') (weights n) = map (store s) (weights n)
        \<and> map (store s') (alphas n) = map (store s) (alphas n))
   \<and> (G = fst (bg_init n mu wd ns unr ren off s0) \<and> list_all (\<lambda>a. a < off) (weights n @ alphas n)
      \<and> bg_virtual_step E G xi t = (r', t')
    \<longrightarrow> changes_only (weights_check_grad (v_net G)) t t'
        \<and> map (store t') (weights n) = map (store t) (weights n)
        \<and> map (store t') (alphas n) = map (store t) (alphas n))"
proof (intro conjI impI)
  assume a: "A = fst (darts_init n mu wd off s0) \<and> list_all (\<lambda>a. a < off) (weights n @ alphas n)
      \<and> darts_virtual_step E A xi s = (r, s')"
  then have c: "changes_only (weights (v_net A) @ alphas (v_net A)) s s'"
    by (blast intro: darts_virtual_step_changes)
  have above: "list_all (\<lambda>a. off \<le> a) (weights (v_net A) @ alphas (v_net A))"
    using a by (auto simp add: darts_init_def deepcopy_network_def list_all_iff)
  from a have bw: "list_all (\<lambda>a. a < off) (weights n)" and ba: "list_all (\<lambda>a. a < off) (alphas n)"
    by simp_all
  show "changes_only (weights (v_net A) @ alphas (v_net A)) s s'" by (rule c)
  show "map (store s') (weights n) = map (store s) (weights n)"
    using c above bw by (rule unchanged_below)
  show "map (store s') (alphas n) = map (store s) (alphas n)"
    using c above ba by (rule unchanged_below)
next
  assume a: "G = fst (bg_init n mu wd ns unr ren off s0) \<and> list_all (\<lambda>a. a < off) (weights n @ alphas n)
      \<and> bg_virtual_step E G xi t = (r', t')"
  then have c: "changes_only (weights_check_grad (v_net G)) t t'"
    by (blast intro: bg_virtual_step_changes)
  have above: "list_all (\<lambda>a. off \<le> a) (weights_check_grad (v_net G))"
    using a by (auto simp add: bg_init_def deepcopy_network_def list_all_iff)
  from a have bw: "list_all (\<lambda>a. a < off) (weights n)" and ba: "list_all (\<lambda>a. a < off) (alphas n)"
    by simp_all
  show "changes_only (weights_check_grad (v_net G)) t t'" by (rule c)
  show "map (store t') (weights n) = map (store t) (weights n)"
    using c above bw by (rule unchanged_below)
  show "map (store t') (alphas n) = map (store t) (alphas n)"
    using c above ba by (rule unchanged_below)
qed

theorem virtual_step_frame_witness:
  "list_all (\<lambda>a. a < 3) (weights two_net @ alphas two_net)
   \<and> fst (darts_virtual_step half_env two_darts (Fin (1 / 10)) two_state) = Inr ()
   \<and> map (store (snd (darts_virtual_step half_env two_darts (Fin (1 / 10)) two_state))) (weights two_net)
       = map (store two_state) (weights two_net)
   \<and> map (store (snd (darts_virtual_step half_env two_darts (Fin (1 / 10)) two_state))) (alphas two_net)
       = map (store two_state) (alphas two_net)
   \<and> changes_only (weights (v_net two_darts) @ alphas (v_net two_darts)) two_state
        (snd (darts_virtual_step half_env two_darts (Fin (1 / 10)) two_state))
   \<and> fst (bg_virtual_step half_env two_gate (Fin (1 / 10)) two_state) = Inr ()
   \<and> map (store (snd (bg_virtual_step half_env two_gate (Fin (1 / 10)) two_state))) (weights two_net)
       = map (store two_state) (weights two_net)
   \<and> map (store (snd (bg_virtual_step half_env two_gate (Fin (1 / 10)) two_state))) (alphas two_net)
       = map (store two_state) (alphas two_net)"
proof -
  have d: "darts_virtual_step half_env two_darts (Fin (1 / 10)) two_state
      = (Inr (), snd (darts_virtual_step half_env two_darts (Fin (1 / 10)) two_state))"
    using example_darts by (intro pair_of_fst) simp
  have g: "bg_virtual_step half_env two_gate (Fin (1 / 10)) two_state
      = (Inr (), snd (bg_virtual_step half_env two_gate (Fin (1 / 10)) two_state))"
    using example_bg by (intro pair_of_fst) simp
  note t = virtual_step_frame[of two_darts two_net "Fin 0" "Fin 0" 3 "ex_state two_store" half_env
      "Fin (1 / 10)" two_state "Inr ()" "snd (darts_virtual_step half_env two_darts (Fin (1 / 10)) two_state)"
      two_gate 2 True True two_state "Inr ()" "snd (bg_virtual_step half_env two_gate (Fin (1 / 10)) two_state)"]
  have p1: "two_darts = fst (darts_init two_net (Fin 0) (Fin 0) 3 (ex_state two_store))"
    by (simp add: two_darts_def)
  have p2: "two_gate = fst (bg_init two_net (Fin 0) (Fin 0) 2 True True 3 (ex_state two_store))"
    by (simp add: two_gate_def)
  from t p1 p2 two_below d g
  have "changes_only (weights (v_net two_darts) @ alphas (v_net two_darts)) two_state
          (snd (darts_virtual_step half_env two_darts (Fin (1 / 10)) two_state))
        \<and> map (store (snd (darts_virtual_step half_env two_darts (Fin (1 / 10)) two_state))) (weights two_net)
            = map (store two_state) (weights two_net)
        \<and> map (store (snd (darts_virtual_step half_env two_darts (Fin (1 / 10)) two_state))) (alphas two_net)
            = map (store two_state) (alphas two_net)
        \<and> map (store (snd (bg_virtual_step half_env two_gate (Fin (1 / 10)) two_state))) (weights two_net)
            = map (store two_state) (weights two_net)
        \<and> map (store (snd (bg_virtual_step half_env two_gate (Fin (1 / 10)) two_state))) (alphas two_net)
            = map (store two_state) (alphas two_net)"
    by blast
  with two_below example_darts example_bg show ?thesis by blast
qed

section \<open>The virtual step and the momentum buffer\<close>

lemma virtual_update_result:
  assumes "virtual_update xi mu wd ws s = (Inr u, s')"
    and "distinct (map (fst \<circ> snd) ws)"
    and "set (map fst ws) \<inter> set (map (fst \<circ> snd) ws) = {}"
    and "(w, vw, g) \<in> set ws"
  shows "virtual_weight xi wd (momentum_term (w_state s) w mu) (store s w) g = Inr (store s' vw)"
  using assms
proof (induction ws arbitrary: s)
  case Nil
  then show ?case by simp
next
  case (Cons x ws)
  obtain w0 vw0 g0 where x: "x = (w0, vw0, g0)" by (cases x)
  let ?os = "state_entry (w_state s) w0"
  let ?s1 = "s\<lparr>w_state := ?os\<rparr>"
  from Cons.prems(1) obtain t where t: "virtual_weight xi wd (momentum_term ?os w0 mu) (store s w0) g0 = Inr t"
    by (auto simp: x Let_def split: sum.splits)
  from Cons.prems(1) t obtain h where h: "copy_into vw0 t (store s) = Inr h"
    by (auto simp: x Let_def split: sum.splits)
  let ?s2 = "?s1\<lparr>store := h\<rparr>"
  from Cons.prems(1) t h have run: "virtual_update xi mu wd ws ?s2 = (Inr u, s')"
    by (simp add: x Let_def)
  have hdef: "h = (store s)(vw0 := t)" using h by (auto simp: copy_into_def split: if_splits)
  from Cons.prems(2) have notin: "vw0 \<notin> set (map (fst \<circ> snd) ws)" and dist: "distinct (map (fst \<circ> snd) ws)"
    by (simp_all add: x o_def)
  from Cons.prems(3) have disj: "set (map fst ws) \<inter> set (map (fst \<circ> snd) ws) = {}"
    and w0: "w0 \<noteq> vw0" and wsvw0: "vw0 \<notin> set (map fst ws)"
    by (auto simp: x)
  from virtual_update_changes[OF run subset_refl]
  have frame: "changes_only (map (fst \<circ> snd) ws) ?s2 s'" .
  show ?case
  proof (cases "(w, vw, g) = (w0, vw0, g0)")
    case True
    have "store s' vw0 = store ?s2 vw0" using frame notin by (simp add: changes_only_def)
    then have "store s' vw0 = t" by (simp add: hdef)
    then show ?thesis using t True by (simp add: momentum_term_state_entry)
  next
    case False
    with Cons.prems(4) have mem: "(w, vw, g) \<in> set ws" by (auto simp: x)
    from Cons.IH[OF run dist disj mem]
    have "virtual_weight xi wd (momentum_term (w_state ?s2) w mu) (store ?s2 w) g = Inr (store s' vw)" .
    moreover have "w \<noteq> vw0" using mem wsvw0 by force
    then have "store ?s2 w = store s w" by (simp add: hdef)
    moreover have "momentum_term (w_state ?s2) w mu = momentum_term (w_state s) w mu"
      by (simp add: momentum_term_state_entry)
    ultimately show ?thesis by simp
  qed
qed

lemma zip_map3: "zip xs (zip (map f xs) (map g xs)) = map (\<lambda>x. (x, f x, g x)) xs"
  by (induction xs) simp_all

lemma autograd_grad_InrD:
  "autograd_grad False loss inputs = Inr gs \<Longrightarrow>
   \<exists>gr. loss = Inr gr \<and> gs = map gr inputs"
  by (auto simp: autograd_grad_def split: sum.splits if_splits)

lemma offset_triples:
  assumes "distinct (ws :: addr list)" and "list_all (\<lambda>a. a < off) ws"
  shows "distinct (map (fst \<circ> snd) (map (\<lambda>x. (x, x + off, gr x)) ws))"
    and "set (map fst (map (\<lambda>x. (x, x + off, gr x)) ws))
           \<inter> set (map (fst \<circ> snd) (map (\<lambda>x. (x, x + off, gr x)) ws)) = {}"
proof -
  have "map (fst \<circ> snd) (map (\<lambda>x. (x, x + off, gr x)) ws) = map (\<lambda>x. x + off) ws"
    by simp
  moreover have "distinct (map (\<lambda>x. x + off) ws)"
    using assms(1) by (auto simp: distinct_map inj_on_def)
  ultimately show "distinct (map (fst \<circ> snd) (map (\<lambda>x. (x, x + off, gr x)) ws))" by (simp add: o_def)
  show "set (map fst (map (\<lambda>x. (x, x + off, gr x)) ws))
           \<inter> set (map (fst \<circ> snd) (map (\<lambda>x. (x, x + off, gr x)) ws)) = {}"
    using assms(2) by (force simp: list_all_iff)
qed

lemma darts_virtual_step_result:
  assumes A: "A = fst (darts_init n mu wd off s0)"
    and dist: "distinct (weights n @ alphas n)"
    and below: "list_all (\<lambda>a. a < off) (weights n @ alphas n)"
    and run: "darts_virtual_step E A xi s = (Inr u, s')"
  shows "\<exists>gr. trn_backward E (store s) = Inr gr
           \<and> (\<forall>w\<in>set (weights n).
                 virtual_weight xi wd (momentum_term (w_state s) w mu) (store s w) (gr w)
                   = Inr (store s' (w + off)))"
proof -
  have flds: "net A = n" "weights (v_net A) = map (\<lambda>a. a + off) (weights n)"
    "alphas (v_net A) = map (\<lambda>a. a + off) (alphas n)" "w_momentum A = mu" "w_weight_decay A = wd"
    by (simp_all add: A darts_init_def deepcopy_network_def)
  from run obtain gs where gs: "autograd_grad False (trn_backward E (store s)) (weights n) = Inr gs"
    by (auto simp: darts_virtual_step_def flds split: sum.splits)
  from autograd_grad_InrD[OF gs] obtain gr where gr: "trn_backward E (store s) = Inr gr"
    "gs = map gr (weights n)" by blast
  let ?ws = "map (\<lambda>x. (x, x + off, gr x)) (weights n)"
  have zip: "zip (weights n) (zip (map (\<lambda>a. a + off) (weights n)) gs) = ?ws"
    unfolding gr(2) by (rule zip_map3)
  from run gs obtain s1 where vu: "virtual_update xi mu wd ?ws s = (Inr u, s1)"
    and sy: "\<exists>r h. sync_alphas (zip (alphas n) (map (\<lambda>a. a + off) (alphas n))) (store s1) = (r, h)
               \<and> s' = s1\<lparr>store := h\<rparr>"
    by (auto simp: darts_virtual_step_def flds zip split: sum.splits prod.splits)
  from sy obtain r h where sync: "sync_alphas (zip (alphas n) (map (\<lambda>a. a + off) (alphas n))) (store s1) = (r, h)"
    and s': "s' = s1\<lparr>store := h\<rparr>" by blast
  have dw: "distinct (weights n)" and bw: "list_all (\<lambda>a. a < off) (weights n)"
    using dist below by simp_all
  have "virtual_weight xi wd (momentum_term (w_state s) w mu) (store s w) (gr w) = Inr (store s' (w + off))"
    if w: "w \<in> set (weights n)" for w
  proof -
    have mem: "(w, w + off, gr w) \<in> set ?ws" using w by auto
    from virtual_update_result[OF vu offset_triples[OF dw bw] mem]
    have "virtual_weight xi wd (momentum_term (w_state s) w mu) (store s w) (gr w) = Inr (store s1 (w + off))" .
    moreover have "w \<notin> set (alphas n)" using dist w by auto
    then have "w + off \<notin> set (map snd (zip (alphas n) (map (\<lambda>a. a + off) (alphas n))))"
      by (auto dest!: set_zip_rightD)
    with sync have "h (w + off) = store s1 (w + off)" by (rule sync_alphas_frame)
    ultimately show ?thesis by (simp add: s')
  qed
  with gr(1) show ?thesis by blast
qed

lemma bg_virtual_step_result:
  assumes G: "G = fst (bg_init n mu wd ns True ren off s0)"
    and dist: "distinct (weights_check_grad n)"
    and below: "list_all (\<lambda>a. a < off) (weights_check_grad n)"
    and run: "bg_virtual_step E G xi s = (Inr u, s')"
  shows "\<exists>gr. trn_backward E (store s) = Inr gr
           \<and> (\<forall>w\<in>set (weights_check_grad n).
                 virtual_weight xi wd (momentum_term (w_state s) w mu) (store s w) (gr w)
                   = Inr (store s' (w + off)))"
proof -
  have flds: "net G = n" "weights_check_grad (v_net G) = map (\<lambda>a. a + off) (weights_check_grad n)"
    "w_momentum G = mu" "w_weight_decay G = wd" "unrolled G"
    by (simp_all add: G bg_init_def deepcopy_network_def)
  from run obtain gs where gs: "autograd_grad False (trn_backward E (store s)) (weights_check_grad n) = Inr gs"
    by (auto simp: bg_virtual_step_def flds split: sum.splits)
  from autograd_grad_InrD[OF gs] obtain gr where gr: "trn_backward E (store s) = Inr gr"
    "gs = map gr (weights_check_grad n)" by blast
  let ?ws = "map (\<lambda>x. (x, x + off, gr x)) (weights_check_grad n)"
  have zip: "zip (weights_check_grad n) (zip (map (\<lambda>a. a + off) (weights_check_grad n)) gs) = ?ws"
    unfolding gr(2) by (rule zip_map3)
  from run gs have vu: "virtual_update xi mu wd ?ws s = (Inr u, s')"
    by (simp add: bg_virtual_step_def flds zip)
  have "virtual_weight xi wd (momentum_term (w_state s) w mu) (store s w) (gr w) = Inr (store s' (w + off))"
    if w: "w \<in> set (weights_check_grad n)" for w
  proof -
    have mem: "(w, w + off, gr w) \<in> set ?ws" using w by auto
    from virtual_update_result[OF vu offset_triples[OF dist below] mem] show ?thesis .
  qed
  with gr(1) show ?thesis by blast
qed

lemma buffer_shape:
  "(case os w of Some (Some b) \<Rightarrow> P b | _ \<Rightarrow> True)
     \<longleftrightarrow> (case momentum_buffer os w of None \<Rightarrow> True | Some b \<Rightarrow> P b)"
  by (auto simp: momentum_buffer_def split: option.splits)

lemma virtual_weight_returns:
  assumes "length gt = length w"
    and "case momentum_buffer os a of None \<Rightarrow> True | Some b \<Rightarrow> length b = length w"
  shows "\<exists>t. virtual_weight xi wd (momentum_term os a mu) w (Some gt) = Inr t \<and> length t = length w"
  using assms
  by (auto simp: virtual_weight_def momentum_term_def tadd_def tsub_def smul_def sadd_def tmuls_def
      split: option.splits)

lemma update_ready_step:
  assumes "update_ready ws s" and "length t = length (store s vw)"
  shows "update_ready ws (s\<lparr>w_state := state_entry (w_state s) w, store := (store s)(vw := t)\<rparr>)"
proof -
  let ?s = "s\<lparr>w_state := state_entry (w_state s) w, store := (store s)(vw := t)\<rparr>"
  have len: "length (store ?s a) = length (store s a)" for a
    using assms(2) by simp
  have buf: "momentum_buffer (w_state ?s) a = momentum_buffer (w_state s) a" for a
    by (simp add: momentum_buffer_state_entry)
  show ?thesis
    using assms(1) unfolding update_ready_def list_all_iff buffer_shape len buf by blast
qed

lemma virtual_update_returns:
  "update_ready ws s \<Longrightarrow> \<exists>s'. virtual_update xi mu wd ws s = (Inr (), s')"
proof (induction ws arbitrary: s)
  case Nil
  then show ?case by simp
next
  case (Cons x ws)
  obtain w vw g where x: "x = (w, vw, g)" by (cases x)
  from Cons.prems obtain gt where g: "g = Some gt" and lg: "length gt = length (store s w)"
    and lv: "length (store s vw) = length (store s w)"
    and lb: "case momentum_buffer (w_state s) w of None \<Rightarrow> True | Some b \<Rightarrow> length b = length (store s w)"
    and rest: "update_ready ws s"
    unfolding update_ready_def buffer_shape by (auto simp: x split: option.splits)
  let ?os = "state_entry (w_state s) w"
  from lb have lb': "case momentum_buffer ?os w of None \<Rightarrow> True | Some b \<Rightarrow> length b = length (store s w)"
    by (simp add: momentum_buffer_state_entry)
  from virtual_weight_returns[OF lg lb', of xi wd mu]
  obtain t where t: "virtual_weight xi wd (momentum_term ?os w mu) (store s w) (Some gt) = Inr t"
    and lt: "length t = length (store s w)" by blast
  have cp: "copy_into vw t (store s) = Inr ((store s)(vw := t))"
    using lt lv by (simp add: copy_into_def)
  have "update_ready ws (s\<lparr>w_state := ?os, store := (store s)(vw := t)\<rparr>)"
    using rest lt lv by (intro update_ready_step) simp_all
  from Cons.IH[OF this] obtain s' where
    "virtual_update xi mu wd ws (s\<lparr>w_state := ?os, store := (store s)(vw := t)\<rparr>) = (Inr (), s')" by blast
  then show ?case using t cp by (simp add: x g Let_def)
qed

lemma virtual_update_lengths:
  "virtual_update xi mu wd ws s = (r, s') \<Longrightarrow> length (store s' a) = length (store s a)"
proof (induction ws arbitrary: s)
  case Nil
  then show ?case by simp
next
  case (Cons x ws)
  obtain w vw g where x: "x = (w, vw, g)" by (cases x)
  show ?case
  proof (cases "virtual_weight xi wd (momentum_term (state_entry (w_state s) w) w mu) (store s w) g")
    case (Inl e)
    with Cons.prems show ?thesis by (auto simp: x Let_def)
  next
    case (Inr t)
    show ?thesis
    proof (cases "copy_into vw t (store s)")
      case (Inl e)
      with Cons.prems Inr show ?thesis by (auto simp: x Let_def)
    next
      case (Inr h)
      then have h: "h = (store s)(vw := t)" and l: "length (store s vw) = length t"
        by (auto simp: copy_into_def split: if_splits)
      from Cons.prems \<open>virtual_weight _ _ _ _ _ = Inr t\<close> Inr
      have "virtual_update xi mu wd ws (s\<lparr>w_state := state_entry (w_state s) w, store := h\<rparr>) = (r, s')"
        by (simp add: x Let_def)
      from Cons.IH[OF this] show ?thesis using l by (simp add: h split: if_splits)
    qed
  qed
qed

lemma sync_alphas_returns:
  "list_all (\<lambda>(a, va). length (h va) = length (h a)) as \<Longrightarrow> \<exists>h'. sync_alphas as h = (Inr (), h')"
proof (induction as arbitrary: h)
  case Nil
  then show ?case by simp
next
  case (Cons x as)
  obtain a va where x: "x = (a, va)" by (cases x)
  from Cons.prems have l: "length (h va) = length (h a)"
    and rest: "list_all (\<lambda>(a, va). length (h va) = length (h a)) as" by (simp_all add: x)
  have cp: "copy_into va (h a) h = Inr (h(va := h a))" using l by (simp add: copy_into_def)
  have "list_all (\<lambda>(b, vb). length ((h(va := h a)) vb) = length ((h(va := h a)) b)) as"
    using rest l by (auto simp: list_all_iff)
  from Cons.IH[OF this] obtain h' where "sync_alphas as (h(va := h a)) = (Inr (), h')" by blast
  then show ?case using cp by (simp add: x del: fun_upd_apply)
qed

lemma update_ready_defined:
  "update_ready (map (\<lambda>w. (w, f w, gr w)) ws) s \<Longrightarrow> \<not> list_ex (\<lambda>a. gr a = None) ws"
  by (auto simp: update_ready_def list_all_iff list_ex_iff split: option.splits)

lemma darts_virtual_step_returns:
  assumes A: "A = fst (darts_init n mu wd off s0)"
    and gr: "trn_backward E (store s) = Inr gr"
    and ready: "update_ready (map (\<lambda>w. (w, w + off, gr w)) (weights n)) s"
    and al: "list_all (\<lambda>a. length (store s (a + off)) = length (store s a)) (alphas n)"
  shows "fst (darts_virtual_step E A xi s) = Inr ()"
proof -
  have flds: "net A = n" "weights (v_net A) = map (\<lambda>a. a + off) (weights n)"
    "alphas (v_net A) = map (\<lambda>a. a + off) (alphas n)" "w_momentum A = mu" "w_weight_decay A = wd"
    by (simp_all add: A darts_init_def deepcopy_network_def)
  have ag: "autograd_grad False (trn_backward E (store s)) (weights n) = Inr (map gr (weights n))"
    using update_ready_defined[OF ready] by (simp add: autograd_grad_def gr)
  from virtual_update_returns[OF ready, of xi mu wd] obtain s1 where
    s1: "virtual_update xi mu wd (map (\<lambda>w. (w, w + off, gr w)) (weights n)) s = (Inr (), s1)" by blast
  have len: "length (store s1 a) = length (store s a)" for a
    by (rule virtual_update_lengths[OF s1])
  have "list_all (\<lambda>(a, va). length (store s1 va) = length (store s1 a))
          (zip (alphas n) (map (\<lambda>a. a + off) (alphas n)))"
    using al by (auto simp: list_all_iff len zip_map2 zip_same)
  from sync_alphas_returns[OF this] obtain h where
    h: "sync_alphas (zip (alphas n) (map (\<lambda>a. a + off) (alphas n))) (store s1) = (Inr (), h)" by blast
  show ?thesis
    by (simp add: darts_virtual_step_def flds ag zip_map3 s1 h)
qed

lemma bg_virtual_step_returns:
  assumes G: "G = fst (bg_init n mu wd ns True ren off s0)"
    and gr: "trn_backward E (store s) = Inr gr"
    and ready: "update_ready (map (\<lambda>w. (w, w + off, gr w)) (weights_check_grad n)) s"
  shows "fst (bg_virtual_step E G xi s) = Inr ()"
proof -
  have flds: "net G = n" "weights_check_grad (v_net G) = map (\<lambda>a. a + off) (weights_check_grad n)"
    "w_momentum G = mu" "w_weight_decay G = wd" "unrolled G"
    by (simp_all add: G bg_init_def deepcopy_network_def)
  have ag: "autograd_grad False (trn_backward E (store s)) (weights_check_grad n)
      = Inr (map gr (weights_check_grad n))"
    using update_ready_defined[OF ready] by (simp add: autograd_grad_def gr)
  from virtual_update_returns[OF ready, of xi mu wd] obtain s1 where
    s1: "virtual_update xi mu wd (map (\<lambda>w. (w, w + off, gr w)) (weights_check_grad n)) s = (Inr (), s1)"
    by blast
  show ?thesis
    by (simp add: bg_virtual_step_def flds ag zip_map3 s1)
qed

lemma virtual_weight_buffer:
  assumes "length g = length w" and "length b = length w" and "os a = Some (Some (map Fin b))"
  shows "virtual_weight (Fin xi) (Fin wd) (momentum_term os a (Fin mu)) (map Fin w) (Some (map Fin g))
         = Inr (map Fin (spec_virtual_weight xi mu wd (Some b) w g))"
proof -
  have "map2 fsub (map Fin w)
          (smul (Fin xi) (map2 fadd (map2 fadd (tmuls (map Fin b) (Fin mu)) (map Fin g)) (smul (Fin wd) (map Fin w))))
        = map Fin (spec_virtual_weight xi mu wd (Some b) w g)"
    using assms(1,2)
    by (intro nth_equalityI) (simp_all add: spec_virtual_weight_def smul_def tmuls_def fsub_def)
  then show ?thesis
    using assms
    by (simp add: virtual_weight_def momentum_term_def momentum_buffer_def tadd_def tsub_def smul_def tmuls_def)
qed

lemma virtual_weight_no_buffer:
  assumes "length g = length w" and "os a = None \<or> os a = Some None"
  shows "virtual_weight (Fin xi) (Fin wd) (momentum_term os a (Fin mu)) (map Fin w) (Some (map Fin g))
         = Inr (map Fin (spec_virtual_weight xi mu wd None w g))"
proof -
  have "map2 fsub (map Fin w)
          (smul (Fin xi) (map2 fadd (sadd (fmul (Fin 0) (Fin mu)) (map Fin g)) (smul (Fin wd) (map Fin w))))
        = map Fin (spec_virtual_weight xi mu wd None w g)"
    using assms(1)
    by (intro nth_equalityI) (simp_all add: spec_virtual_weight_def smul_def sadd_def fsub_def)
  moreover have "momentum_buffer os a = None"
    using assms(2) by (auto simp: momentum_buffer_def)
  ultimately show ?thesis
    using assms(1)
    by (simp add: virtual_weight_def momentum_term_def tadd_def tsub_def smul_def sadd_def)
qed

lemma bg_virtual_step_no_model:
  assumes "G = fst (bg_init n m d ns False ren off s0)"
  shows "\<exists>e. bg_virtual_step E G x s = (Inl e, s)"
    and "trn_backward E (store s) = Inr gr \<Longrightarrow> list_all (\<lambda>w. gr w \<noteq> None) (weights_check_grad n) \<Longrightarrow>
         bg_virtual_step E G x s = (Inl AttributeError, s)"
proof -
  have nu: "\<not> unrolled G" and net: "net G = n" by (simp_all add: assms bg_init_def)
  show "\<exists>e. bg_virtual_step E G x s = (Inl e, s)"
    by (simp add: bg_virtual_step_def nu split: sum.splits)
  assume "trn_backward E (store s) = Inr gr" and "list_all (\<lambda>w. gr w \<noteq> None) (weights_check_grad n)"
  then have "autograd_grad False (trn_backward E (store s)) (weights_check_grad n)
      = Inr (map gr (weights_check_grad n))"
    by (auto simp: autograd_grad_def list_all_iff list_ex_iff)
  then show "bg_virtual_step E G x s = (Inl AttributeError, s)"
    by (simp add: bg_virtual_step_def nu net)
qed

text \<open>
  The claim C6 fails for a gated architect that was built without unrolling: it has no
  virtual model, and \<open>virtual_step\<close> raises an AttributeError after the gradient
  evaluation, without writing anything.
\<close>

theorem virtual_step_without_virtual_model:
  "bg_virtual_step echo_env first_order_gate (Fin (1 / 10)) (ex_state three_logits)
     = (Inl AttributeError, ex_state three_logits)"
  by (simp add: bg_virtual_step_def first_order_gate_def bg_init_def echo_env_def autograd_grad_def
      ex_net_def)

text \<open>
  C6, as amended. On finite values \<open>virtual_weight\<close> is the documented formula
  \<open>w - xi * (m + g + wd * w)\<close>: \<open>m\<close> is the momentum buffer that the entry of the weight in
  the optimizer state holds, times \<open>mu\<close>, and zero when the weight has no entry or its
  entry has no buffer. For an architect with a virtual model (the DARTS architect, and the
  gated one built with unrolling), when the training loss returns a gradient of its
  weight's shape for every weight, \<open>virtual_step\<close> returns and leaves in every virtual
  weight the \<open>virtual_weight\<close> of the real weight, its gradient and its momentum term, all
  read before the call. A gated architect built without unrolling has no virtual model:
  its \<open>virtual_step\<close> always raises and changes nothing. For the weights \<open>[1.0]\<close> and
  \<open>[2.0]\<close>, zero momentum and weight decay, the gradient \<open>[0.5]\<close> and \<open>xi = 0.1\<close> the
  virtual weights become \<open>[0.95]\<close> and \<open>[1.95]\<close>.
\<close>

theorem virtual_step_formula:
  "(length g = length w \<and> length b = length w \<and> os a = Some (Some (map Fin b))
    \<longrightarrow> virtual_weight (Fin xi) (Fin wd) (momentum_term os a (Fin mu)) (map Fin w) (Some (map Fin g))
          = Inr (map Fin (spec_virtual_weight xi mu wd (Some b) w g)))
   \<and> (length g = length w \<and> (os a = None \<or> os a = Some None)
    \<longrightarrow> virtual_weight (Fin xi) (Fin wd) (momentum_term os a (Fin mu)) (map Fin w) (Some (map Fin g))
          = Inr (map Fin (spec_virtual_weight xi mu wd None w g)))
   \<and> (A = fst (darts_init n m d off s0) \<and> distinct (weights n @ alphas n)
      \<and> list_all (\<lambda>a. a < off) (weights n @ alphas n)
      \<and> trn_backward E (store s) = Inr gr
      \<and> update_ready (map (\<lambda>w. (w, w + off, gr w)) (weights n)) s
      \<and> list_all (\<lambda>a. length (store s (a + off)) = length (store s a)) (alphas n)
    \<longrightarrow> fst (darts_virtual_step E A x s) = Inr ()
        \<and> (\<forall>w\<in>set (weights n).
              virtual_weight x d (momentum_term (w_state s) w m) (store s w) (gr w)
                = Inr (store (snd (darts_virtual_step E A x s)) (w + off))))
   \<and> (G = fst (bg_init n m d ns True ren off s0) \<and> distinct (weights_check_grad n)
      \<and> list_all (\<lambda>a. a < off) (weights_check_grad n)
      \<and> trn_backward E (store s) = Inr gr
      \<and> update_ready (map (\<lambda>w. (w, w + off, gr w)) (weights_check_grad n)) s
    \<longrightarrow> fst (bg_virtual_step E G x s) = Inr ()
        \<and> (\<forall>w\<in>set (weights_check_grad n).
              virtual_weight x d (momentum_term (w_state s) w m) (store s w) (gr w)
                = Inr (store (snd (bg_virtual_step E G x s)) (w + off))))
   \<and> (G' = fst (bg_init n m d ns False ren off s0)
    \<longrightarrow> (\<exists>e. bg_virtual_step E G' x s = (Inl e, s))
        \<and> (trn_backward E (store s) = Inr gr \<and> list_all (\<lambda>w. gr w \<noteq> None) (weights_check_grad n)
            \<longrightarrow> bg_virtual_step E G' x s = (Inl AttributeError, s)))
   \<and> map (store (snd (darts_virtual_step half_env two_darts (Fin (1 / 10)) two_state))) (weights (v_net two_darts))
       = [[Fin (95 / 100)], [Fin (195 / 100)]]
   \<and> map (store (snd (bg_virtual_step half_env two_gate (Fin (1 / 10)) two_state))) (weights (v_net two_gate))
       = [[Fin (95 / 100)], [Fin (195 / 100)]]"
proof (intro conjI impI)
  assume "length g = length w \<and> length b = length w \<and> os a = Some (Some (map Fin b))"
  then show "virtual_weight (Fin xi) (Fin wd) (momentum_term os a (Fin mu)) (map Fin w) (Some (map Fin g))
          = Inr (map Fin (spec_virtual_weight xi mu wd (Some b) w g))"
    by (blast intro: virtual_weight_buffer)
next
  assume "length g = length w \<and> (os a = None \<or> os a = Some None)"
  then show "virtual_weight (Fin xi) (Fin wd) (momentum_term os a (Fin mu)) (map Fin w) (Some (map Fin g))
          = Inr (map Fin (spec_virtual_weight xi mu wd None w g))"
    by (intro virtual_weight_no_buffer) blast+
next
  assume h: "A = fst (darts_init n m d off s0) \<and> distinct (weights n @ alphas n)
      \<and> list_all (\<lambda>a. a < off) (weights n @ alphas n)
      \<and> trn_backward E (store s) = Inr gr
      \<and> update_ready (map (\<lambda>w. (w, w + off, gr w)) (weights n)) s
      \<and> list_all (\<lambda>a. length (store s (a + off)) = length (store s a)) (alphas n)"
  then show ok: "fst (darts_virtual_step E A x s) = Inr ()"
    by (blast intro: darts_virtual_step_returns)
  then have run: "darts_virtual_step E A x s = (Inr (), snd (darts_virtual_step E A x s))"
    by (rule pair_of_fst)
  from h have A: "A = fst (darts_init n m d off s0)" and dist: "distinct (weights n @ alphas n)"
    and below: "list_all (\<lambda>a. a < off) (weights n @ alphas n)"
    and gr: "trn_backward E (store s) = Inr gr" by simp_all
  from darts_virtual_step_result[OF A dist below run] gr
  show "\<forall>w\<in>set (weights n).
          virtual_weight x d (momentum_term (w_state s) w m) (store s w) (gr w)
            = Inr (store (snd (darts_virtual_step E A x s)) (w + off))"
    by auto
next
  assume h: "G = fst (bg_init n m d ns True ren off s0) \<and> distinct (weights_check_grad n)
      \<and> list_all (\<lambda>a. a < off) (weights_check_grad n)
      \<and> trn_backward E (store s) = Inr gr
      \<and> update_ready (map (\<lambda>w. (w, w + off, gr w)) (weights_check_grad n)) s"
  then show ok: "fst (bg_virtual_step E G x s) = Inr ()"
    by (blast intro: bg_virtual_step_returns)
  then have run: "bg_virtual_step E G x s = (Inr (), snd (bg_virtual_step E G x s))"
    by (rule pair_of_fst)
  from h have G: "G = fst (bg_init n m d ns True ren off s0)" and dist: "distinct (weights_check_grad n)"
    and below: "list_all (\<lambda>a. a < off) (weights_check_grad n)"
    and gr: "trn_backward E (store s) = Inr gr" by simp_all
  from bg_virtual_step_result[OF G dist below run] gr
  show "\<forall>w\<in>set (weights_check_grad n).
          virtual_weight x d (momentum_term (w_state s) w m) (store s w) (gr w)
            = Inr (store (snd (bg_virtual_step E G x s)) (w + off))"
    by auto
next
  assume "G' = fst (bg_init n m d ns False ren off s0)"
  then show "\<exists>e. bg_virtual_step E G' x s = (Inl e, s)" by (rule bg_virtual_step_no_model(1))
next
  assume "G' = fst (bg_init n m d ns False ren off s0)"
    and "trn_backward E (store s) = Inr gr \<and> list_all (\<lambda>w. gr w \<noteq> None) (weights_check_grad n)"
  then show "bg_virtual_step E G' x s = (Inl AttributeError, s)"
    by (blast intro: bg_virtual_step_no_model(2))
next
  show "map (store (snd (darts_virtual_step half_env two_darts (Fin (1 / 10)) two_state))) (weights (v_net two_darts))
       = [[Fin (95 / 100)], [Fin (195 / 100)]]"
    using example_darts by blast
next
  show "map (store (snd (bg_virtual_step half_env two_gate (Fin (1 / 10)) two_state))) (weights (v_net two_gate))
       = [[Fin (95 / 100)], [Fin (195 / 100)]]"
    using example_bg by blast
qed

lemma momentum_simps:
  "net momentum_darts = two_net" "v_net momentum_darts = deepcopy_network 3 two_net"
  "w_momentum momentum_darts = Fin (1 / 2)" "w_weight_decay momentum_darts = Fin (1 / 10)"
  "store buffered_state = deepcopy_store 3 two_store"
  "w_state buffered_state 0 = Some (Some [Fin (1 / 5)])"
  "w_state buffered_state 1 = Some (Some [Fin (2 / 5)])"
  "w_state buffered_state (Suc 0) = Some (Some [Fin (2 / 5)])"
  by (simp_all add: momentum_darts_def darts_init_def buffered_state_def two_state_simps)

lemma buffered_ready:
  "update_ready (map (\<lambda>w. (w, w + 3, Some [Fin (1 / 2)])) (weights two_net)) buffered_state"
  "update_ready (map (\<lambda>w. (w, w + 3, Some [Fin (1 / 2)])) (weights_check_grad two_net)) buffered_state"
  "list_all (\<lambda>a. length (store buffered_state (a + 3)) = length (store buffered_state a)) (alphas two_net)"
  by (simp_all add: update_ready_def two_net_simps momentum_simps two_store_cells)

lemma spec_buffered:
  "spec_virtual_weight (1 / 10) (1 / 2) (1 / 10) (Some [1 / 5]) [1] [1 / 2] = [93 / 100]"
  "spec_virtual_weight (1 / 10) (1 / 2) (1 / 10) (Some [2 / 5]) [2] [1 / 2] = [191 / 100]"
  by (simp_all add: spec_virtual_weight_def)

theorem virtual_step_formula_witness:
  "update_ready (map (\<lambda>w. (w, w + 3, Some [Fin (1 / 2)])) (weights two_net)) buffered_state
   \<and> w_state buffered_state 0 = Some (Some [Fin (1 / 5)])
   \<and> w_state buffered_state 1 = Some (Some [Fin (2 / 5)])
   \<and> fst (darts_virtual_step half_env momentum_darts (Fin (1 / 10)) buffered_state) = Inr ()
   \<and> store (snd (darts_virtual_step half_env momentum_darts (Fin (1 / 10)) buffered_state)) 3 = [Fin (93 / 100)]
   \<and> store (snd (darts_virtual_step half_env momentum_darts (Fin (1 / 10)) buffered_state)) 4 = [Fin (191 / 100)]
   \<and> fst (bg_virtual_step half_env momentum_gate (Fin (1 / 10)) buffered_state) = Inr ()
   \<and> store (snd (bg_virtual_step half_env momentum_gate (Fin (1 / 10)) buffered_state)) 3 = [Fin (93 / 100)]
   \<and> store (snd (bg_virtual_step half_env momentum_gate (Fin (1 / 10)) buffered_state)) 4 = [Fin (191 / 100)]
   \<and> bg_virtual_step half_env first_order_gate (Fin (1 / 10)) buffered_state
        = (Inl AttributeError, buffered_state)"
proof -
  let ?gr = "\<lambda>a :: addr. Some [Fin (1 / 2)]"
  let ?d = "snd (darts_virtual_step half_env momentum_darts (Fin (1 / 10)) buffered_state)"
  let ?g = "snd (bg_virtual_step half_env momentum_gate (Fin (1 / 10)) buffered_state)"
  have hA: "momentum_darts = fst (darts_init two_net (Fin (1 / 2)) (Fin (1 / 10)) 3 (ex_state two_store))"
    by (simp add: momentum_darts_def)
  have hG: "momentum_gate = fst (bg_init two_net (Fin (1 / 2)) (Fin (1 / 10)) 2 True True 3 (ex_state two_store))"
    by (simp add: momentum_gate_def)
  have dist: "distinct (weights two_net @ alphas two_net)" "distinct (weights_check_grad two_net)"
    by (simp_all add: two_net_simps)
  have below: "list_all (\<lambda>a. a < 3) (weights two_net @ alphas two_net)"
    "list_all (\<lambda>a. a < 3) (weights_check_grad two_net)"
    by (simp_all add: two_net_simps)
  have gr: "trn_backward half_env (store buffered_state) = Inr ?gr"
    by (simp add: half_env_def)
  note t = virtual_step_formula[where A = momentum_darts and G = momentum_gate and n = two_net
      and m = "Fin (1 / 2)" and d = "Fin (1 / 10)" and off = 3 and ?s0.0 = "ex_state two_store"
      and E = half_env and s = buffered_state and gr = ?gr and x = "Fin (1 / 10)" and ns = 2 and ren = True
      and xi = "1 / 10" and wd = "1 / 10" and mu = "1 / 2" and os = "w_state buffered_state"]
  from t[where w = "[1]" and g = "[1 / 2]" and b = "[1 / 5]" and a = 0, THEN conjunct1] momentum_simps(6)
  have f1: "virtual_weight (Fin (1 / 10)) (Fin (1 / 10)) (momentum_term (w_state buffered_state) 0 (Fin (1 / 2)))
              [Fin 1] (Some [Fin (1 / 2)]) = Inr [Fin (93 / 100)]"
    by (simp add: spec_buffered)
  from t[where w = "[2]" and g = "[1 / 2]" and b = "[2 / 5]" and a = 1, THEN conjunct1] momentum_simps(7)
  have f2: "virtual_weight (Fin (1 / 10)) (Fin (1 / 10)) (momentum_term (w_state buffered_state) 1 (Fin (1 / 2)))
              [Fin 2] (Some [Fin (1 / 2)]) = Inr [Fin (191 / 100)]"
    by (simp add: spec_buffered)
  from t[where w = "[1]" and g = "[1 / 2]" and b = "[1 / 5]" and a = 0] hA dist below gr buffered_ready
  have d: "fst (darts_virtual_step half_env momentum_darts (Fin (1 / 10)) buffered_state) = Inr ()
        \<and> (\<forall>w\<in>set (weights two_net).
              virtual_weight (Fin (1 / 10)) (Fin (1 / 10)) (momentum_term (w_state buffered_state) w (Fin (1 / 2)))
                (store buffered_state w) (Some [Fin (1 / 2)]) = Inr (store ?d (w + 3)))"
    by blast
  from t[where w = "[1]" and g = "[1 / 2]" and b = "[1 / 5]" and a = 0] hG dist below gr buffered_ready
  have g: "fst (bg_virtual_step half_env momentum_gate (Fin (1 / 10)) buffered_state) = Inr ()
        \<and> (\<forall>w\<in>set (weights_check_grad two_net).
              virtual_weight (Fin (1 / 10)) (Fin (1 / 10)) (momentum_term (w_state buffered_state) w (Fin (1 / 2)))
                (store buffered_state w) (Some [Fin (1 / 2)]) = Inr (store ?g (w + 3)))"
    by blast
  have c0: "store buffered_state 0 = [Fin 1]" and c1: "store buffered_state 1 = [Fin 2]"
    by (simp_all add: momentum_simps two_store_cells)
  from d have d0: "virtual_weight (Fin (1 / 10)) (Fin (1 / 10)) (momentum_term (w_state buffered_state) 0 (Fin (1 / 2)))
                (store buffered_state 0) (Some [Fin (1 / 2)]) = Inr (store ?d 3)"
    by (simp add: two_net_simps)
  from d have d1: "virtual_weight (Fin (1 / 10)) (Fin (1 / 10)) (momentum_term (w_state buffered_state) 1 (Fin (1 / 2)))
                (store buffered_state 1) (Some [Fin (1 / 2)]) = Inr (store ?d 4)"
    by (simp add: two_net_simps)
  from g have g0: "virtual_weight (Fin (1 / 10)) (Fin (1 / 10)) (momentum_term (w_state buffered_state) 0 (Fin (1 / 2)))
                (store buffered_state 0) (Some [Fin (1 / 2)]) = Inr (store ?g 3)"
    by (simp add: two_net_simps)
  from g have g1: "virtual_weight (Fin (1 / 10)) (Fin (1 / 10)) (momentum_term (w_state buffered_state) 1 (Fin (1 / 2)))
                (store buffered_state 1) (Some [Fin (1 / 2)]) = Inr (store ?g 4)"
    by (simp add: two_net_simps)
  have r1: "store ?d 3 = [Fin (93 / 100)]" using d0 f1 unfolding c0 by simp
  have r2: "store ?d 4 = [Fin (191 / 100)]" using d1 f2 unfolding c1 by simp
  have r3: "store ?g 3 = [Fin (93 / 100)]" using g0 f1 unfolding c0 by simp
  have r4: "store ?g 4 = [Fin (191 / 100)]" using g1 f2 unfolding c1 by simp
  have hF: "first_order_gate = fst (bg_init ex_net (Fin 0) (Fin 0) 2 False True 2 (ex_state three_logits))"
    by (simp add: first_order_gate_def)
  have defd: "list_all (\<lambda>w. ?gr w \<noteq> None) (weights_check_grad ex_net)" by (simp add: ex_net_simps)
  from virtual_step_formula[where G' = first_order_gate and n = ex_net and m = "Fin 0" and d = "Fin 0"
      and ns = 2 and ren = True and off = 2 and ?s0.0 = "ex_state three_logits" and E = half_env
      and s = buffered_state and gr = ?gr and x = "Fin (1 / 10)"] hF gr defd
  have r5: "bg_virtual_step half_env first_order_gate (Fin (1 / 10)) buffered_state
        = (Inl AttributeError, buffered_state)"
    by blast
  from buffered_ready(1) momentum_simps(6,7) d g r1 r2 r3 r4 r5 show ?thesis by blast
qed

section \<open>The alphas of the virtual model\<close>

lemma zip_offset: "zip xs (map f xs) = map (\<lambda>x. (x, f x)) xs"
  by (induction xs) simp_all

lemma sync_offset:
  "sync_alphas (map (\<lambda>a. (a, a + off)) xs) h = (Inr u, h') \<Longrightarrow> list_all (\<lambda>a. a < off) xs \<Longrightarrow>
   (\<forall>a\<in>set xs. h' (a + off) = h a) \<and> (\<forall>b. b \<notin> (\<lambda>a. a + off) ` set xs \<longrightarrow> h' b = h b)"
proof (induction xs arbitrary: h)
  case Nil
  then show ?case by simp
next
  case (Cons x xs)
  from Cons.prems(1) have cp: "copy_into (x + off) (h x) h = Inr (h(x + off := h x))"
    by (auto simp: copy_into_def split: if_splits sum.splits)
  with Cons.prems(1) have run: "sync_alphas (map (\<lambda>a. (a, a + off)) xs) (h(x + off := h x)) = (Inr u, h')"
    by simp
  from Cons.prems(2) have xo: "x < off" and below: "list_all (\<lambda>a. a < off) xs" by simp_all
  from Cons.IH[OF run below]
  have ih1: "\<forall>a\<in>set xs. h' (a + off) = (h(x + off := h x)) a"
    and ih2: "\<forall>b. b \<notin> (\<lambda>a. a + off) ` set xs \<longrightarrow> h' b = (h(x + off := h x)) b" by blast+
  have small: "a \<noteq> x + off" if "a \<in> set xs" for a
    using that below by (auto simp: list_all_iff)
  have a1: "h' (a + off) = h a" if "a \<in> set xs" for a
    using ih1 that small[OF that] by simp
  have a2: "h' (x + off) = h x"
  proof (cases "x \<in> set xs")
    case True
    then show ?thesis by (rule a1)
  next
    case False
    then have "x + off \<notin> (\<lambda>a. a + off) ` set xs" by auto
    with ih2 show ?thesis by simp
  qed
  have a3: "h' b = h b" if "b \<notin> (\<lambda>a. a + off) ` set (x # xs)" for b
  proof -
    from that have "b \<notin> (\<lambda>a. a + off) ` set xs" and "b \<noteq> x + off" by auto
    with ih2 show ?thesis by simp
  qed
  show ?case using a1 a2 a3 by auto
qed

lemma darts_virtual_step_synced:
  assumes A: "A = fst (darts_init n mu wd off s0)"
    and below: "list_all (\<lambda>a. a < off) (alphas n)"
    and run: "darts_virtual_step E A xi s = (Inr u, s')"
  shows "map (store s') (alphas (v_net A)) = map (store s') (alphas (net A))"
proof -
  have flds: "net A = n" "alphas (v_net A) = map (\<lambda>a. a + off) (alphas n)"
    by (simp_all add: A darts_init_def deepcopy_network_def)
  from run obtain s1 h where
    sy: "sync_alphas (zip (alphas n) (map (\<lambda>a. a + off) (alphas n))) (store s1) = (Inr u, h)"
    and s': "s' = s1\<lparr>store := h\<rparr>"
    by (auto simp: darts_virtual_step_def flds split: sum.splits prod.splits)
  from sy have sy': "sync_alphas (map (\<lambda>a. (a, a + off)) (alphas n)) (store s1) = (Inr u, h)"
    by (simp add: zip_offset)
  from sync_offset[OF sy' below]
  have c1: "\<forall>a\<in>set (alphas n). h (a + off) = store s1 a"
    and c2: "\<forall>b. b \<notin> (\<lambda>a. a + off) ` set (alphas n) \<longrightarrow> h b = store s1 b" by blast+
  have "h (a + off) = h a" if "a \<in> set (alphas n)" for a
  proof -
    from that below have "a < off" by (simp add: list_all_iff)
    then have "a \<notin> (\<lambda>a. a + off) ` set (alphas n)" by auto
    with c2 have "h a = store s1 a" by simp
    with c1 that show ?thesis by simp
  qed
  then show ?thesis by (simp add: flds s')
qed

lemma alphas_checked_simps:
  "trn_backward (alphas_checked A E) = trn_backward E"
  "val_backward (alphas_checked A E) = val_backward E"
  "a_params (alphas_checked A E) = a_params E"
  "a_zero (alphas_checked A E) = a_zero E"
  "a_rule (alphas_checked A E) = a_rule E"
  "requires_grad (alphas_checked A E) = requires_grad E"
  by (simp_all add: alphas_checked_def)

lemma alphas_checked_calls:
  "zero_grad (alphas_checked A E) s = zero_grad E s"
  "optim_step (alphas_checked A E) s = optim_step E s"
  "darts_virtual_step (alphas_checked A E) B xi s = darts_virtual_step E B xi s"
  "darts_compute_hessian (alphas_checked A E) B dw h = darts_compute_hessian E B dw h"
  "bg_virtual_step (alphas_checked A E) G xi s = bg_virtual_step E G xi s"
  "bg_compute_hessian (alphas_checked A E) G dw h = bg_compute_hessian E G dw h"
  "bg_first_order (alphas_checked A E) G s = bg_first_order E G s"
  unfolding zero_grad_def optim_step_def darts_virtual_step_def darts_compute_hessian_def
    bg_virtual_step_def bg_compute_hessian_def bg_first_order_def alphas_checked_simps
  by (rule refl)+

lemma alphas_checked_holds:
  "map h (alphas (v_net A)) = map h (alphas (net A)) \<Longrightarrow>
   v_val_backward (alphas_checked A E) h = v_val_backward E h"
  by (simp add: alphas_checked_def)

lemma darts_step_checked:
  assumes A: "A = fst (darts_init n mu wd off s0)"
    and below: "list_all (\<lambda>a. a < off) (alphas n)"
  shows "darts_step (alphas_checked A E) A xi s = darts_step E A xi s"
proof -
  obtain r s1 where run: "darts_virtual_step E A xi (zero_grad E s) = (r, s1)" by force
  show ?thesis
  proof (cases r)
    case (Inl e)
    show ?thesis
      unfolding darts_step_def alphas_checked_calls run Inl prod.case sum.case by (rule refl)
  next
    case (Inr u)
    with run have "darts_virtual_step E A xi (zero_grad E s) = (Inr u, s1)" by simp
    from darts_virtual_step_synced[OF A below this]
    have v: "v_val_backward (alphas_checked A E) (store s1) = v_val_backward E (store s1)"
      by (rule alphas_checked_holds)
    show ?thesis
      unfolding darts_step_def alphas_checked_calls run Inr prod.case sum.case Let_def v
      by (rule refl)
  qed
qed

lemma bg_step_checked:
  assumes G: "G = fst (bg_init n mu wd ns unr ren off s0)"
  shows "bg_step (alphas_checked G E) G pm xi s = bg_step E G pm xi s"
proof (cases unr)
  case True
  then have "alphas (v_net G) = alphas (net G)" by (simp add: G bg_init_def)
  then have "alphas_checked G E = E" by (simp add: alphas_checked_def)
  then show ?thesis by simp
next
  case False
  then have "\<not> unrolled G" by (simp add: G bg_init_def)
  then show ?thesis unfolding bg_step_def alphas_checked_calls alphas_checked_simps by simp
qed

lemma darts_perturb_frame:
  "darts_perturb op c ps h = (r, h') \<Longrightarrow> a \<notin> fst ` set ps \<Longrightarrow> h' a = h a"
proof (induction op c ps h rule: darts_perturb.induct)
  case (1 op c h)
  then show ?case by simp
next
  case (2 op c p ps h)
  then show ?case by simp
next
  case (3 op c p d ps h)
  show ?case
  proof (cases "op (h p) (smul c d)")
    case (Inl e)
    with 3 show ?thesis by simp
  next
    case (Inr t)
    with "3.prems" have run: "darts_perturb op c ps (h(p := t)) = (r, h')" by simp
    from "3.prems" have "a \<noteq> p" and "a \<notin> fst ` set ps" by auto
    with "3.IH"[OF Inr run] show ?thesis by simp
  qed
qed

lemma zip_fst_subset: "a \<notin> set xs \<Longrightarrow> a \<notin> fst ` set (zip xs ys)"
  by (auto dest: set_zip_leftD)

lemma darts_compute_hessian_frame:
  assumes "darts_compute_hessian E A dw h = (r, h')" and "a \<notin> set (weights (net A))"
  shows "h' a = h a"
proof -
  note out = zip_fst_subset[OF assms(2), of dw]
  show ?thesis
  proof (cases "darts_norm dw")
    case (Inl e)
    with assms(1) show ?thesis by (simp add: darts_compute_hessian_def)
  next
    case (Inr nrm)
    let ?eps = "fdiv (Fin (1 / 100)) nrm"
    let ?ps = "zip (weights (net A)) dw"
    obtain r1 h1 where p1: "darts_perturb tadd ?eps ?ps h = (r1, h1)" by force
    obtain r2 h2 where p2: "darts_perturb tsub (fmul (Fin 2) ?eps) ?ps h1 = (r2, h2)" by force
    obtain r3 h3 where p3: "darts_perturb tadd ?eps ?ps h2 = (r3, h3)" by force
    have f1: "h1 a = h a" by (rule darts_perturb_frame[OF p1 out])
    have f2: "h2 a = h1 a" by (rule darts_perturb_frame[OF p2 out])
    have f3: "h3 a = h2 a" by (rule darts_perturb_frame[OF p3 out])
    from assms(1) have "h' = h1 \<or> h' = h2 \<or> h' = h3"
      by (auto simp: darts_compute_hessian_def Inr Let_def p1 p2 p3 split: sum.splits)
    with f1 f2 f3 show ?thesis by auto
  qed
qed

lemma assign_grads_store: "assign_grads xi zs s = (r, s') \<Longrightarrow> store s' = store s"
proof (induction zs arbitrary: s)
  case Nil
  then show ?case by simp
next
  case (Cons z zs)
  obtain alpha da h where z: "z = (alpha, da, h)" by (cases z)
  show ?case
  proof (cases "final_grad xi da h")
    case (Inl e)
    with Cons.prems show ?thesis by (simp add: z)
  next
    case (Inr g)
    show ?thesis
    proof (cases "length g = length (store s alpha)")
      case True
      with Cons.prems Inr have "assign_grads xi zs (s\<lparr>grad := (grad s)(alpha := Some g)\<rparr>) = (r, s')"
        by (simp add: z)
      from Cons.IH[OF this] show ?thesis by simp
    next
      case False
      with Cons.prems Inr show ?thesis by (simp add: z)
    qed
  qed
qed

lemma fold_rule_frame:
  "a \<notin> set ps \<Longrightarrow>
   fold (\<lambda>p h. case g p of None \<Rightarrow> h | Some t \<Rightarrow> h(p := f (h p) t)) ps h a = h a"
  by (induction ps arbitrary: h) (auto split: option.splits)

lemma optim_step_frame: "a \<notin> set (a_params E) \<Longrightarrow> store (optim_step E s) a = store s a"
  by (simp add: optim_step_def fold_rule_frame)

lemma zero_grad_store: "store (zero_grad E s) = store s"
  by (simp add: zero_grad_def)

lemma darts_step_virtual_alphas:
  assumes A: "A = fst (darts_init n mu wd off s0)"
    and below: "list_all (\<lambda>a. a < off) (weights n @ alphas n)"
    and params: "list_all (\<lambda>a. a < off) (a_params E)"
    and run: "darts_step E A xi s = (Inr u, s')"
  shows "map (store s') (alphas (v_net A)) = map (store s) (alphas n)"
proof -
  have flds: "net A = n" "alphas (v_net A) = map (\<lambda>a. a + off) (alphas n)"
    "weights (v_net A) = map (\<lambda>a. a + off) (weights n)"
    by (simp_all add: A darts_init_def deepcopy_network_def)
  from below have bw: "list_all (\<lambda>a. a < off) (weights n)" and ba: "list_all (\<lambda>a. a < off) (alphas n)"
    by simp_all
  obtain r1 s1 where vs: "darts_virtual_step E A xi (zero_grad E s) = (r1, s1)" by force
  from run vs obtain u1 where r1: "r1 = Inr u1"
    by (cases r1) (auto simp: darts_step_def)
  from run vs r1 obtain dw dalpha hessian h s2 where
    ch: "darts_compute_hessian E A dw (store s1) = (Inr hessian, h)"
    and ag: "assign_grads xi (zip (alphas (net A)) (zip dalpha hessian)) (s1\<lparr>store := h\<rparr>) = (Inr (), s2)"
    and s': "s' = optim_step E s2"
    by (auto simp: darts_step_def Let_def split: sum.splits prod.splits)
  have synced: "map (store s1) (alphas (v_net A)) = map (store s1) (alphas (net A))"
    using vs r1 by (intro darts_virtual_step_synced[OF A ba]) simp
  have c: "changes_only (weights (v_net A) @ alphas (v_net A)) (zero_grad E s) s1"
    by (rule darts_virtual_step_changes[OF vs])
  have above: "list_all (\<lambda>a. off \<le> a) (weights (v_net A) @ alphas (v_net A))"
    by (auto simp: flds list_all_iff)
  have real: "map (store s1) (alphas n) = map (store s) (alphas n)"
    using unchanged_below[OF c above ba] by (simp add: zero_grad_store)
  have "store s' (a + off) = store s1 (a + off)" if "a \<in> set (alphas n)" for a
  proof -
    have "a + off \<notin> set (a_params E)" using params by (auto simp: list_all_iff)
    then have "store s' (a + off) = store s2 (a + off)" by (simp add: s' optim_step_frame)
    also have "\<dots> = h (a + off)" using assign_grads_store[OF ag] by simp
    also have "\<dots> = store s1 (a + off)"
    proof (rule darts_compute_hessian_frame[OF ch])
      show "a + off \<notin> set (weights (net A))" using bw by (auto simp: flds list_all_iff)
    qed
    finally show ?thesis .
  qed
  then have "map (store s') (alphas (v_net A)) = map (store s1) (alphas (v_net A))"
    by (simp add: flds)
  with synced real show ?thesis by (simp add: flds)
qed

lemma example_step:
  "fst (darts_step echo_env ex_darts (Fin 1) (ex_state three_four)) = Inr ()"
  by (simp add: darts_step_def zero_grad_def echo_env_def ex_state_def three_four_def ex_darts_simps
      ex_net_simps deepcopy_network_def darts_virtual_step_def autograd_grad_def Let_def state_entry_def
      momentum_term_def momentum_buffer_def virtual_weight_def copy_into_def tadd_def tsub_def smul_def
      sadd_def fsub_def darts_compute_hessian_def darts_norm_3_4 optim_step_def final_grad_def tmuls_def
      tdivs_def)

text \<open>
  C3. For a DARTS architect as its constructor builds it, whenever the virtual step inside
  \<open>step\<close> has returned, every alpha tensor of the virtual model equals the corresponding
  alpha tensor of the real model in the store at which the virtual model's validation loss
  is evaluated; so \<open>step\<close> under the run-time check of that equality is \<open>step\<close>. When the
  architecture optimizer owns only parameters of the real model, a step that returns
  leaves in every virtual alpha the value that the real alpha had before the step: the
  only write to a virtual alpha is the copy. The gated architect has no virtual alpha
  tensors of its own: its virtual model uses the alpha tensors of the real model, and its
  \<open>step\<close> under the run-time check is \<open>step\<close> as well.
\<close>

theorem virtual_alphas_synchronized:
  "(A = fst (darts_init n mu wd off s0) \<and> list_all (\<lambda>a. a < off) (weights n @ alphas n) \<longrightarrow>
      (\<forall>u s1. darts_virtual_step E A xi (zero_grad E s) = (Inr u, s1)
          \<longrightarrow> map (store s1) (alphas (v_net A)) = map (store s1) (alphas (net A)))
      \<and> darts_step (alphas_checked A E) A xi s = darts_step E A xi s
      \<and> (list_all (\<lambda>a. a < off) (a_params E) \<and> fst (darts_step E A xi s) = Inr ()
          \<longrightarrow> map (store (snd (darts_step E A xi s))) (alphas (v_net A)) = map (store s) (alphas n)))
   \<and> (G = fst (bg_init n mu wd ns unr ren off s0) \<longrightarrow>
      (unr \<longrightarrow> alphas (v_net G) = alphas (net G))
      \<and> bg_step (alphas_checked G E) G pm xi s = bg_step E G pm xi s)"
proof (intro conjI impI allI)
  fix u s1
  assume h: "A = fst (darts_init n mu wd off s0) \<and> list_all (\<lambda>a. a < off) (weights n @ alphas n)"
    and run: "darts_virtual_step E A xi (zero_grad E s) = (Inr u, s1)"
  from h have A: "A = fst (darts_init n mu wd off s0)" and ba: "list_all (\<lambda>a. a < off) (alphas n)"
    by simp_all
  show "map (store s1) (alphas (v_net A)) = map (store s1) (alphas (net A))"
    by (rule darts_virtual_step_synced[OF A ba run])
next
  assume h: "A = fst (darts_init n mu wd off s0) \<and> list_all (\<lambda>a. a < off) (weights n @ alphas n)"
  from h have A: "A = fst (darts_init n mu wd off s0)" and ba: "list_all (\<lambda>a. a < off) (alphas n)"
    by simp_all
  show "darts_step (alphas_checked A E) A xi s = darts_step E A xi s"
    by (rule darts_step_checked[OF A ba])
next
  assume h: "A = fst (darts_init n mu wd off s0) \<and> list_all (\<lambda>a. a < off) (weights n @ alphas n)"
    and k: "list_all (\<lambda>a. a < off) (a_params E) \<and> fst (darts_step E A xi s) = Inr ()"
  from h have A: "A = fst (darts_init n mu wd off s0)"
    and below: "list_all (\<lambda>a. a < off) (weights n @ alphas n)" by blast+
  from k have params: "list_all (\<lambda>a. a < off) (a_params E)" by blast
  from k have run: "darts_step E A xi s = (Inr (), snd (darts_step E A xi s))"
    by (intro pair_of_fst) simp
  show "map (store (snd (darts_step E A xi s))) (alphas (v_net A)) = map (store s) (alphas n)"
    by (rule darts_step_virtual_alphas[OF A below params run])
next
  assume "G = fst (bg_init n mu wd ns unr ren off s0)" and unr
  then show "alphas (v_net G) = alphas (net G)" by (simp add: bg_init_def)
next
  assume "G = fst (bg_init n mu wd ns unr ren off s0)"
  then show "bg_step (alphas_checked G E) G pm xi s = bg_step E G pm xi s"
    by (rule bg_step_checked)
qed

theorem virtual_alphas_synchronized_witness:
  "list_all (\<lambda>a. a < 2) (weights ex_net @ alphas ex_net)
   \<and> list_all (\<lambda>a. a < 2) (a_params echo_env)
   \<and> fst (darts_step echo_env ex_darts (Fin 1) (ex_state three_four)) = Inr ()
   \<and> darts_step (alphas_checked ex_darts echo_env) ex_darts (Fin 1) (ex_state three_four)
       = darts_step echo_env ex_darts (Fin 1) (ex_state three_four)
   \<and> map (store (snd (darts_step echo_env ex_darts (Fin 1) (ex_state three_four)))) (alphas (v_net ex_darts))
       = map (store (ex_state three_four)) (alphas ex_net)
   \<and> alphas (v_net ex_gate) = alphas (net ex_gate)
   \<and> bg_step (alphas_checked ex_gate echo_env) ex_gate [] (Fin 1) (ex_state three_four)
       = bg_step echo_env ex_gate [] (Fin 1) (ex_state three_four)"
proof -
  have hA: "ex_darts = fst (darts_init ex_net (Fin 0) (Fin 0) 2
      \<lparr>store = (\<lambda>a. []), grad = (\<lambda>a. None), w_state = (\<lambda>a. None)\<rparr>)"
    by (simp add: ex_darts_def)
  have hG: "ex_gate = fst (bg_init ex_net (Fin 0) (Fin 0) 2 True True 2
      \<lparr>store = (\<lambda>a. []), grad = (\<lambda>a. None), w_state = (\<lambda>a. None)\<rparr>)"
    by (simp add: ex_gate_def)
  have below: "list_all (\<lambda>a. a < 2) (weights ex_net @ alphas ex_net)"
    by (simp add: ex_net_simps)
  have params: "list_all (\<lambda>a. a < 2) (a_params echo_env)"
    by (simp add: echo_env_def)
  note t = virtual_alphas_synchronized[where A = ex_darts and G = ex_gate and n = ex_net
      and mu = "Fin 0" and wd = "Fin 0" and off = 2 and ns = 2 and unr = True and ren = True
      and ?s0.0 = "\<lparr>store = (\<lambda>a. []), grad = (\<lambda>a. None), w_state = (\<lambda>a. None)\<rparr>"
      and E = echo_env and xi = "Fin 1" and s = "ex_state three_four" and pm = "[]"]
  from t hA below
  have a: "darts_step (alphas_checked ex_darts echo_env) ex_darts (Fin 1) (ex_state three_four)
       = darts_step echo_env ex_darts (Fin 1) (ex_state three_four)" by blast
  from t hA below params example_step
  have b: "map (store (snd (darts_step echo_env ex_darts (Fin 1) (ex_state three_four)))) (alphas (v_net ex_darts))
       = map (store (ex_state three_four)) (alphas ex_net)" by blast
  from t hG have c: "alphas (v_net ex_gate) = alphas (net ex_gate)" by blast
  from t hG
  have d: "bg_step (alphas_checked ex_gate echo_env) ex_gate [] (Fin 1) (ex_state three_four)
       = bg_step echo_env ex_gate [] (Fin 1) (ex_state three_four)" by blast
  from below params example_step a b c d show ?thesis by blast
qed

section \<open>Undefined gradients in the gated step\<close>

lemma gated_gate_simps:
  "net gated_gate = gated_net" "v_net gated_gate = (deepcopy_network 3 gated_net)\<lparr>alphas := alphas gated_net\<rparr>"
  "w_momentum gated_gate = Fin 0" "w_weight_decay gated_gate = Fin 0"
  "unrolled gated_gate" "renorm gated_gate"
  by (simp_all add: gated_gate_def bg_init_def)

lemma gated_net_simps:
  "weights gated_net = [0, 1]" "weights_check_grad gated_net = [0]" "alphas gated_net = [2]"
  by (simp_all add: gated_net_def)

text \<open>
  C5. A step of the unrolled gated architect in which a weight lies outside the sampled
  subgraph raises: \<open>torch.autograd.grad(loss, v_weights)\<close> is called without
  \<open>allow_unused\<close>, so the virtual weight without a gradient is a RuntimeError. A step in
  which the loss does not use an alpha raises as well: its entry of \<open>dalpha\<close> is \<open>None\<close>,
  and \<open>da - xi*h\<close> is a TypeError.
\<close>

theorem undefined_gradient_aborts_step:
  "fst (bg_step unused_weight_env gated_gate [] (Fin (1 / 10)) (ex_state three_four)) = Inl RuntimeError
   \<and> fst (bg_step unused_alpha_env ex_gate [] (Fin (1 / 10)) (ex_state three_four)) = Inl TypeError"
proof
  show "fst (bg_step unused_weight_env gated_gate [] (Fin (1 / 10)) (ex_state three_four)) = Inl RuntimeError"
    by (simp add: bg_step_def bg_unrolled_def bg_virtual_step_def zero_grad_def unused_weight_env_def
        ex_state_def three_four_def gated_gate_simps gated_net_simps deepcopy_network_def
        autograd_grad_def Let_def state_entry_def momentum_term_def momentum_buffer_def
        virtual_weight_def copy_into_def tadd_def tsub_def smul_def sadd_def fsub_def)
  show "fst (bg_step unused_alpha_env ex_gate [] (Fin (1 / 10)) (ex_state three_four)) = Inl TypeError"
    by (simp add: bg_step_def bg_unrolled_def bg_virtual_step_def zero_grad_def unused_alpha_env_def
        ex_state_def three_four_def ex_gate_simps ex_net_simps deepcopy_network_def
        autograd_grad_def alpha_grad_def Let_def state_entry_def momentum_term_def momentum_buffer_def
        virtual_weight_def copy_into_def tadd_def tsub_def smul_def sadd_def fsub_def
        bg_compute_hessian_def bg_norm_3_4 final_grad_def tmuls_def tdivs_def)
qed

end
